theory Spec2Isabelle
  imports Complex_Main "HOL-Library.AList"
begin

section \<open>Strings as the analyzers use them\<close>

text \<open>
  Python strings are modelled as \<open>string\<close> (lists of 8-bit characters, that is code
  points below 256). \<open>py_isspace\<close> lists the code points below 256 that
  \<open>str.strip()\<close> removes; \<open>strip\<close> removes them at both ends; \<open>split\<close> is
  \<open>str.split(sep)\<close> for a one-character separator, which always returns at least
  one field (\<open>''''.split(',') == ['']\<close>).
\<close>

definition py_isspace :: "char \<Rightarrow> bool" where
  "py_isspace c = ((of_char c :: nat) \<in> set [9, 10, 11, 12, 13, 28, 29, 30, 31, 32, 133, 160])"

definition strip :: "string \<Rightarrow> string" where
  "strip s = rev (dropWhile py_isspace (rev (dropWhile py_isspace s)))"

fun split :: "char \<Rightarrow> string \<Rightarrow> string list" where
  "split sep [] = [[]]"
| "split sep (c # cs) =
     (if c = sep then [] # split sep cs
      else (let fields = split sep cs in (c # hd fields) # tl fields))"

section \<open>Format detection\<close>

text \<open>
  \<open>data_pipeline.py\<close>, \<open>detect_file_properties\<close>, and the same loop in
  \<open>example_analysis.py\<close> (\<open>detect_encoding_and_separator\<close>) and \<open>quick_demo.py\<close>
  (\<open>_detect_properties\<close>):
  \<^verbatim>\<open>
    separators = [',', ';', '\t', '|']
    max_columns = 0
    best_separator = ','
    for sep in separators:
        columns = first_line.split(sep)
        if len(columns) > max_columns:
            max_columns = len(columns)
            best_separator = sep
  \<close>
  \<open>first_line\<close> is the variable of the source: the first line of the file after
  \<open>strip()\<close>. The loop state is the pair \<open>(max_columns, best_separator)\<close>.
\<close>

definition separators :: "char list" where
  "separators = [CHR '','', CHR '';'', CHR 0x09, CHR ''|'']"

definition sep_step :: "string \<Rightarrow> char \<Rightarrow> nat \<times> char \<Rightarrow> nat \<times> char" where
  "sep_step first_line sep st =
     (case st of (max_columns, best_separator) \<Rightarrow>
        (let columns = split sep first_line in
         if length columns > max_columns then (length columns, sep)
         else (max_columns, best_separator)))"

definition detect_separator :: "string \<Rightarrow> nat \<times> char" where
  "detect_separator first_line = fold (sep_step first_line) separators (0, CHR '','')"

text \<open>
  A text file as the detection code sees it: what \<open>open(path, 'r',
  encoding=e).readline()\<close> returns under the encoding \<open>e\<close> (\<open>None\<close> as the
  encoding is Python's \<open>encoding=None\<close>). \<open>None\<close> as the result is a
  \<open>UnicodeDecodeError\<close>. An empty file reads as the empty line under every encoding.
\<close>

type_synonym text_file = "string option \<Rightarrow> string option"

datatype error = UnicodeDecodeError | StopIteration

definition empty_file :: text_file where
  "empty_file enc = Some []"

definition header_only_file :: text_file where
  "header_only_file enc = Some ''customer_id''"

text \<open>A file whose first line holds a byte that the \<open>ascii\<close> codec rejects.\<close>

definition non_ascii_file :: text_file where
  "non_ascii_file enc = (if enc = Some ''ascii'' then None else Some [CHR ''a'', CHR 0xE9])"

text \<open>
  A file whose first line is blank and whose second line holds a byte that is not valid
  UTF-8: read as \<open>utf-8\<close> the first \<open>readline()\<close> fails, since the decoder works
  on a whole block of the file; read as \<open>latin-1\<close> or \<open>cp1252\<close> the first line is
  a newline.
\<close>

definition blank_first_line_file :: text_file where
  "blank_first_line_file enc = (if enc = Some ''utf-8'' then None else Some [CHR 0x0A])"

record file_properties =
  encoding :: string
  separator :: char
  columns_count :: nat

text \<open>
  \<open>example_analysis.py\<close>, \<open>detect_encoding_and_separator\<close>: the encoding loop keeps
  the first candidate under which the first line decodes and is not blank; a decoding error
  moves on to the next candidate, and when the loop finds none \<open>self.encoding\<close> keeps the
  value \<open>'utf-8'\<close> that \<open>__init__\<close> gave it. The file is then opened again with that
  encoding, outside any \<open>try\<close>.
\<close>

definition encodings_to_try :: "string list" where
  "encodings_to_try = [''utf-8'', ''latin-1'', ''cp1252'']"

fun try_encodings :: "text_file \<Rightarrow> string list \<Rightarrow> string \<Rightarrow> string" where
  "try_encodings f [] self_encoding = self_encoding"
| "try_encodings f (e # es) self_encoding =
     (case f (Some e) of
        None \<Rightarrow> try_encodings f es self_encoding
      | Some line \<Rightarrow> if strip line \<noteq> [] then e else try_encodings f es self_encoding)"

definition detect_encoding_and_separator :: "text_file \<Rightarrow> error + file_properties" where
  "detect_encoding_and_separator f =
     (let self_encoding = try_encodings f encodings_to_try ''utf-8'' in
      case f (Some self_encoding) of
        None \<Rightarrow> Inl UnicodeDecodeError
      | Some line \<Rightarrow>
          (case detect_separator (strip line) of (max_columns, best_separator) \<Rightarrow>
             Inr \<lparr>encoding = self_encoding, separator = best_separator,
                  columns_count = max_columns\<rparr>))"

text \<open>
  \<open>data_pipeline.py\<close>, \<open>detect_file_properties\<close>: the encoding is whatever
  \<open>chardet.detect\<close> answers for the first 10000 bytes; its answer (an encoding name or
  \<open>None\<close>, and a confidence) is a parameter here. The file is then opened with that
  encoding, outside any \<open>try\<close>.
\<close>

record pd_file_properties =
  pd_encoding :: "string option"
  pd_separator :: char
  pd_confidence :: real
  pd_columns_count :: nat

definition detect_file_properties ::
  "string option \<times> real \<Rightarrow> text_file \<Rightarrow> error + pd_file_properties" where
  "detect_file_properties chardet_result f =
     (case chardet_result of (self_encoding, confidence) \<Rightarrow>
        (case f self_encoding of
           None \<Rightarrow> Inl UnicodeDecodeError
         | Some line \<Rightarrow>
             (case detect_separator (strip line) of (max_columns, best_separator) \<Rightarrow>
                Inr \<lparr>pd_encoding = self_encoding, pd_separator = best_separator,
                     pd_confidence = confidence, pd_columns_count = max_columns\<rparr>)))"

section \<open>The csv analyzers\<close>

text \<open>
  \<open>example_analysis.py\<close> and \<open>quick_demo.py\<close> read the file with \<open>csv.reader\<close>. A
  file is modelled as the list of rows the reader yields, the header first; each row is the
  list of its cells. The builtin \<open>float\<close> is a parameter \<open>to_float\<close> of the functions
  that call it: \<open>None\<close> is its \<open>ValueError\<close>. Its results are taken in \<open>real\<close>:
  rounding, \<open>nan\<close> and \<open>inf\<close> are outside the model.

  Dictionaries are association lists in insertion order. \<open>get0\<close> is the lookup of a
  \<open>defaultdict(int)\<close> or a \<open>Counter\<close>, and \<open>incr k d\<close> is \<open>d[k] += 1\<close> on one.
\<close>

definition get0 :: "(string \<times> int) list \<Rightarrow> string \<Rightarrow> int" where
  "get0 d k = (case map_of d k of None \<Rightarrow> 0 | Some n \<Rightarrow> n)"

definition incr :: "string \<Rightarrow> (string \<times> int) list \<Rightarrow> (string \<times> int) list" where
  "incr k d = AList.update k (get0 d k + 1) d"

text \<open>
  \<open>example_analysis.py\<close>, \<open>analyze_null_values\<close>:
  \<^verbatim>\<open>
    columns = next(reader)
    for row in reader:
        total_rows += 1
        for i, value in enumerate(row):
            if i < len(columns):
                if not value.strip():  # Empty or whitespace
                    null_counts[columns[i]] += 1
    null_percentages = {col: (count / total_rows) * 100
                        for col, count in null_counts.items()}
  \<close>
\<close>

record null_analysis =
  null_counts :: "(string \<times> int) list"
  null_percentages :: "(string \<times> real) list"
  total_rows :: int

definition null_cell ::
  "string list \<Rightarrow> nat \<times> string \<Rightarrow> (string \<times> int) list \<Rightarrow> (string \<times> int) list" where
  "null_cell columns iv counts =
     (case iv of (i, value) \<Rightarrow>
        if i < length columns then
          (if strip value = [] then incr (columns ! i) counts else counts)
        else counts)"

definition null_row ::
  "string list \<Rightarrow> string list \<Rightarrow> (string \<times> int) list \<times> int \<Rightarrow> (string \<times> int) list \<times> int" where
  "null_row columns row st =
     (case st of (counts, n) \<Rightarrow> (fold (null_cell columns) (enumerate 0 row) counts, n + 1))"

definition analyze_null_values :: "string list list \<Rightarrow> error + null_analysis" where
  "analyze_null_values file =
     (case file of
        [] \<Rightarrow> Inl StopIteration
      | columns # rows \<Rightarrow>
          (case fold (null_row columns) rows ([], 0) of (counts, n) \<Rightarrow>
             Inr \<lparr>null_counts = counts,
                  null_percentages =
                    map (\<lambda>(col, count). (col, real_of_int count / real_of_int n * 100)) counts,
                  total_rows = n\<rparr>))"

text \<open>
  \<open>quick_demo.py\<close>, \<open>_analyze_nulls\<close>: the same loop, left at the row of index
  \<open>max_rows\<close>.
\<close>

definition analyze_nulls_quick :: "nat \<Rightarrow> string list list \<Rightarrow> error + null_analysis" where
  "analyze_nulls_quick max_rows file =
     (case file of
        [] \<Rightarrow> Inl StopIteration
      | columns # rows \<Rightarrow> analyze_null_values (columns # take max_rows rows))"

text \<open>
  \<open>example_analysis.py\<close>, \<open>calculate_basic_statistics\<close> (and \<open>_calculate_stats\<close> of
  \<open>quick_demo.py\<close>, the same code over the first \<open>max_rows\<close> rows):
  \<^verbatim>\<open>
    for col in columns:
        stats[col] = {'numeric_values': [], 'string_values': Counter(), 'total_count': 0}
    for row in reader:
        for i, value in enumerate(row):
            if i < len(columns):
                col = columns[i]
                stats[col]['total_count'] += 1
                try:
                    numeric_val = float(value)
                    stats[col]['numeric_values'].append(numeric_val)
                except (ValueError, TypeError):
                    if value.strip():
                        stats[col]['string_values'][value] += 1
  \<close>
  \<open>stats[col]\<close> exists for every header name, so the update of an entry never raises
  \<open>KeyError\<close>; it is \<open>AList.map_entry\<close>.
\<close>

record col_stats =
  numeric_values :: "real list"
  string_values :: "(string \<times> int) list"
  total_count :: int

definition empty_col_stats :: col_stats where
  "empty_col_stats = \<lparr>numeric_values = [], string_values = [], total_count = 0\<rparr>"

definition init_stats :: "string list \<Rightarrow> (string \<times> col_stats) list" where
  "init_stats columns = fold (\<lambda>col stats. AList.update col empty_col_stats stats) columns []"

definition stats_cell :: "(string \<Rightarrow> real option) \<Rightarrow> string \<Rightarrow> col_stats \<Rightarrow> col_stats" where
  "stats_cell to_float value st =
     (let st1 = st\<lparr>total_count := total_count st + 1\<rparr> in
      case to_float value of
        Some numeric_val \<Rightarrow> st1\<lparr>numeric_values := numeric_values st1 @ [numeric_val]\<rparr>
      | None \<Rightarrow>
          if strip value \<noteq> [] then st1\<lparr>string_values := incr value (string_values st1)\<rparr>
          else st1)"

definition stats_row_cell ::
  "(string \<Rightarrow> real option) \<Rightarrow> string list \<Rightarrow> nat \<times> string \<Rightarrow>
   (string \<times> col_stats) list \<Rightarrow> (string \<times> col_stats) list" where
  "stats_row_cell to_float columns iv stats =
     (case iv of (i, value) \<Rightarrow>
        if i < length columns then
          AList.map_entry (columns ! i) (stats_cell to_float value) stats
        else stats)"

definition stats_row ::
  "(string \<Rightarrow> real option) \<Rightarrow> string list \<Rightarrow> string list \<Rightarrow>
   (string \<times> col_stats) list \<Rightarrow> (string \<times> col_stats) list" where
  "stats_row to_float columns row stats =
     fold (stats_row_cell to_float columns) (enumerate 0 row) stats"

definition column_stats ::
  "(string \<Rightarrow> real option) \<Rightarrow> string list \<Rightarrow> string list list \<Rightarrow>
   (string \<times> col_stats) list" where
  "column_stats to_float columns rows =
     fold (stats_row to_float columns) rows (init_stats columns)"

text \<open>
  The final statistics of a column:
  \<^verbatim>\<open>
    if numeric_vals:
        final_stats[col] = {'type': 'numeric', 'count': len(numeric_vals),
            'mean': sum(numeric_vals) / len(numeric_vals) if numeric_vals else 0,
            'min': min(numeric_vals) if numeric_vals else None,
            'max': max(numeric_vals) if numeric_vals else None,
            'null_count': col_stats['total_count'] - len(numeric_vals)}
    else:
        final_stats[col] = {'type': 'categorical', 'unique_values': len(string_vals),
            'top_5_values': string_vals.most_common(5),
            'null_count': col_stats['total_count'] - sum(string_vals.values())}
  \<close>
  \<open>Numeric\<close> holds count, mean, min, max and null_count in this order; \<open>Categorical\<close>
  holds unique_values, top_5_values and null_count. \<open>most_common n\<close> is the first \<open>n\<close>
  items by decreasing count, equal counts in insertion order.
\<close>

datatype final_stat =
    Numeric int real "real option" "real option" int
  | Categorical int "(string \<times> int) list" int

fun py_min_list :: "real list \<Rightarrow> real" where
  "py_min_list [] = 0"
| "py_min_list (x # xs) = fold (\<lambda>y m. if y < m then y else m) xs x"

fun py_max_list :: "real list \<Rightarrow> real" where
  "py_max_list [] = 0"
| "py_max_list (x # xs) = fold (\<lambda>y m. if y > m then y else m) xs x"

definition most_common :: "nat \<Rightarrow> (string \<times> int) list \<Rightarrow> (string \<times> int) list" where
  "most_common n d = take n (sort_key (\<lambda>item. - snd item) d)"

definition final_of :: "col_stats \<Rightarrow> final_stat" where
  "final_of st =
     (let numeric_vals = numeric_values st; string_vals = string_values st in
      if numeric_vals \<noteq> [] then
        Numeric (int (length numeric_vals))
          (if numeric_vals \<noteq> [] then sum_list numeric_vals / real (length numeric_vals) else 0)
          (if numeric_vals \<noteq> [] then Some (py_min_list numeric_vals) else None)
          (if numeric_vals \<noteq> [] then Some (py_max_list numeric_vals) else None)
          (total_count st - int (length numeric_vals))
      else
        Categorical (int (length string_vals)) (most_common 5 string_vals)
          (total_count st - sum_list (map snd string_vals)))"

definition calculate_basic_statistics ::
  "(string \<Rightarrow> real option) \<Rightarrow> string list list \<Rightarrow> error + (string \<times> final_stat) list" where
  "calculate_basic_statistics to_float file =
     (case file of
        [] \<Rightarrow> Inl StopIteration
      | columns # rows \<Rightarrow>
          Inr (map (\<lambda>(col, st). (col, final_of st)) (column_stats to_float columns rows)))"

definition calculate_stats_quick ::
  "(string \<Rightarrow> real option) \<Rightarrow> nat \<Rightarrow> string list list \<Rightarrow>
   error + (string \<times> final_stat) list" where
  "calculate_stats_quick to_float max_rows file =
     (case file of
        [] \<Rightarrow> Inl StopIteration
      | columns # rows \<Rightarrow> calculate_basic_statistics to_float (columns # take max_rows rows))"

text \<open>
  The values of \<open>float\<close> on the numeric strings of the examples below; on every other
  string the examples use (\<open>abc\<close>, \<open>X\<close>, the empty string, a blank) \<open>float\<close> raises
  \<open>ValueError\<close>.
\<close>

definition example_float :: "string \<Rightarrow> real option" where
  "example_float s = map_of [(''1'', 1), (''2'', 2), (''3'', 3), (''10.5'', 21 / 2), (''20.0'', 20)] s"

text \<open>
  The cells that the two passes fold into the accumulators of the column named \<open>c\<close>: in each
  row, the cells at the positions below \<open>len(columns)\<close> whose header name is \<open>c\<close>.
\<close>

definition row_cells :: "string list \<Rightarrow> string \<Rightarrow> nat \<Rightarrow> string list \<Rightarrow> string list" where
  "row_cells columns c n row =
     map snd (filter (\<lambda>iv. fst iv < length columns \<and> columns ! fst iv = c) (enumerate n row))"

definition column_cells :: "string list \<Rightarrow> string \<Rightarrow> string list list \<Rightarrow> string list" where
  "column_cells columns c rows = concat (map (row_cells columns c 0) rows)"

definition is_numeric :: "final_stat \<Rightarrow> bool" where
  "is_numeric fs = (case fs of Numeric count mean mn mx nulls \<Rightarrow> True | Categorical u t nulls \<Rightarrow> False)"

definition numeric_count :: "final_stat \<Rightarrow> int" where
  "numeric_count fs = (case fs of Numeric count mean mn mx nulls \<Rightarrow> count | Categorical u t nulls \<Rightarrow> 0)"

text \<open>The \<open>null_count\<close> of a final entry, of either kind.\<close>

definition final_null_count :: "final_stat \<Rightarrow> int" where
  "final_null_count fs =
     (case fs of Numeric count mean mn mx nulls \<Rightarrow> nulls | Categorical u t nulls \<Rightarrow> nulls)"

text \<open>The end-to-end scenario of the specification, as \<open>csv.reader\<close> yields it.\<close>

definition scenario_file :: "string list list" where
  "scenario_file =
     [[''id'', ''amount'', ''category''], [''1'', ''10.5'', ''X''], [''2'', '''', ''Y''],
      [''3'', ''20.0'', '''']]"

section \<open>The chunked pipeline\<close>

text \<open>
  \<open>data_pipeline.py\<close> reads the file with \<open>pandas.read_csv(..., chunksize=chunk_size)\<close>.
  The statistics loop is modelled over the chunks the reader yields. A chunk is a data
  frame: its columns in order, each a name and a series. A series has one dtype: numeric
  (\<open>int64\<close> or \<open>float64\<close>, with \<open>None\<close> for \<open>NaN\<close>), object (strings, with \<open>None\<close>
  for \<open>NaN\<close>) or bool, which \<open>select_dtypes\<close> puts in neither group. Numbers are taken
  in \<open>real\<close>: the rounding of \<open>float64\<close> and the wrap-around of an \<open>int64\<close> sum
  at \<open>2^63\<close> are outside the model, and no statement below depends on the value of a sum
  beyond the relation \<open>mean = sum / count\<close>.

  The series methods the loop calls: \<open>sum()\<close> and \<open>count()\<close> skip \<open>NaN\<close>;
  \<open>min()\<close> and \<open>max()\<close> are \<open>NaN\<close> on a series without values; \<open>dropna()\<close> keeps the
  values; \<open>value_counts()\<close> counts each distinct value and orders by decreasing count
  (equal counts are kept in order of first appearance here; pandas does not fix their
  order, and no statement below evaluates \<open>value_counts\<close> on equal counts).
\<close>

datatype series =
    NumSeries "real option list"
  | ObjSeries "string option list"
  | BoolSeries "bool list"

type_synonym dataframe = "(string \<times> series) list"

datatype xfloat = Fin real | PosInf | NegInf | NaN

fun xless :: "xfloat \<Rightarrow> xfloat \<Rightarrow> bool" where
  "xless NaN b = False"
| "xless a NaN = False"
| "xless (Fin a) (Fin b) = (a < b)"
| "xless (Fin a) PosInf = True"
| "xless (Fin a) NegInf = False"
| "xless PosInf b = False"
| "xless NegInf NegInf = False"
| "xless NegInf b = True"

text \<open>
  The builtins \<open>min(a, b)\<close> and \<open>max(a, b)\<close>: the second argument is returned only when
  it compares strictly below (above) the first.
\<close>

definition py_min :: "xfloat \<Rightarrow> xfloat \<Rightarrow> xfloat" where
  "py_min a b = (if xless b a then b else a)"

definition py_max :: "xfloat \<Rightarrow> xfloat \<Rightarrow> xfloat" where
  "py_max a b = (if xless a b then b else a)"

definition dropna :: "'a option list \<Rightarrow> 'a list" where
  "dropna cells = List.map_filter (\<lambda>x. x) cells"

definition series_sum :: "real option list \<Rightarrow> real" where
  "series_sum cells = sum_list (dropna cells)"

definition series_count :: "real option list \<Rightarrow> int" where
  "series_count cells = int (length (dropna cells))"

definition series_min :: "real option list \<Rightarrow> xfloat" where
  "series_min cells = (if dropna cells = [] then NaN else Fin (py_min_list (dropna cells)))"

definition series_max :: "real option list \<Rightarrow> xfloat" where
  "series_max cells = (if dropna cells = [] then NaN else Fin (py_max_list (dropna cells)))"

definition value_counts :: "string option list \<Rightarrow> (string \<times> int) list" where
  "value_counts cells = sort_key (\<lambda>item. - snd item) (fold incr (dropna cells) [])"

text \<open>
  The numeric part of the loop body of \<open>calculate_descriptive_statistics\<close>:
  \<^verbatim>\<open>
    for col in numeric_cols:
        if col not in numeric_stats:
            numeric_stats[col] = {'sum': 0, 'count': 0, 'min': float('inf'),
                                  'max': float('-inf'), 'values': []}
        numeric_stats[col]['sum'] += chunk[col].sum()
        numeric_stats[col]['count'] += chunk[col].count()
        numeric_stats[col]['min'] = min(numeric_stats[col]['min'], chunk[col].min())
        numeric_stats[col]['max'] = max(numeric_stats[col]['max'], chunk[col].max())
        if len(numeric_stats[col]['values']) < 10000:
            numeric_stats[col]['values'].extend(chunk[col].dropna().tolist())
  \<close>
\<close>

record numeric_acc =
  sum_acc :: real
  count_acc :: int
  min_acc :: xfloat
  max_acc :: xfloat
  values_acc :: "real list"

definition new_numeric_acc :: numeric_acc where
  "new_numeric_acc =
     \<lparr>sum_acc = 0, count_acc = 0, min_acc = PosInf, max_acc = NegInf, values_acc = []\<rparr>"

definition update_numeric :: "real option list \<Rightarrow> numeric_acc \<Rightarrow> numeric_acc" where
  "update_numeric cells st =
     \<lparr>sum_acc = sum_acc st + series_sum cells,
      count_acc = count_acc st + series_count cells,
      min_acc = py_min (min_acc st) (series_min cells),
      max_acc = py_max (max_acc st) (series_max cells),
      values_acc =
        (if length (values_acc st) < 10000 then values_acc st @ dropna cells
         else values_acc st)\<rparr>"

definition numeric_col ::
  "string \<times> series \<Rightarrow> (string \<times> numeric_acc) list \<Rightarrow> (string \<times> numeric_acc) list" where
  "numeric_col cs numeric_stats =
     (case cs of
        (col, NumSeries cells) \<Rightarrow>
          AList.map_entry col (update_numeric cells)
            (if map_of numeric_stats col = None
             then AList.update col new_numeric_acc numeric_stats
             else numeric_stats)
      | (col, ObjSeries cells) \<Rightarrow> numeric_stats
      | (col, BoolSeries cells) \<Rightarrow> numeric_stats)"

text \<open>
  The categorical part:
  \<^verbatim>\<open>
    for col in categorical_cols:
        if col not in categorical_stats:
            categorical_stats[col] = {}
        value_counts = chunk[col].value_counts()
        for value, count in value_counts.items():
            if value in categorical_stats[col]:
                categorical_stats[col][value] += count
            else:
                categorical_stats[col][value] = count
  \<close>
  \<open>merge_counts acc vc\<close> is the inner loop: it merges the counts \<open>vc\<close> of a chunk into
  the accumulated frequency map \<open>acc\<close>.
\<close>

definition merge_item :: "string \<times> int \<Rightarrow> (string \<times> int) list \<Rightarrow> (string \<times> int) list" where
  "merge_item vc d =
     (case vc of (value, count) \<Rightarrow>
        (case map_of d value of
           Some n \<Rightarrow> AList.update value (n + count) d
         | None \<Rightarrow> AList.update value count d))"

definition merge_counts ::
  "(string \<times> int) list \<Rightarrow> (string \<times> int) list \<Rightarrow> (string \<times> int) list" where
  "merge_counts acc vc = fold merge_item vc acc"

definition categorical_col ::
  "string \<times> series \<Rightarrow> (string \<times> (string \<times> int) list) list \<Rightarrow>
   (string \<times> (string \<times> int) list) list" where
  "categorical_col cs categorical_stats =
     (case cs of
        (col, ObjSeries cells) \<Rightarrow>
          AList.map_entry col (\<lambda>acc. merge_counts acc (value_counts cells))
            (if map_of categorical_stats col = None
             then AList.update col [] categorical_stats
             else categorical_stats)
      | (col, NumSeries cells) \<Rightarrow> categorical_stats
      | (col, BoolSeries cells) \<Rightarrow> categorical_stats)"

type_synonym accumulators =
  "(string \<times> numeric_acc) list \<times> (string \<times> (string \<times> int) list) list"

definition chunk_step :: "dataframe \<Rightarrow> accumulators \<Rightarrow> accumulators" where
  "chunk_step chunk st =
     (case st of (numeric_stats, categorical_stats) \<Rightarrow>
        (fold numeric_col chunk numeric_stats, fold categorical_col chunk categorical_stats))"

definition accumulate :: "dataframe list \<Rightarrow> accumulators" where
  "accumulate chunks = fold chunk_step chunks ([], [])"

text \<open>
  The final statistics:
  \<^verbatim>\<open>
    for col, stats in numeric_stats.items():
        if stats['count'] > 0:
            mean = stats['sum'] / stats['count']
            final_stats[col] = {'mean': mean, 'min': stats['min'], 'max': stats['max'],
                'count': stats['count'], 'null_count': self.total_rows - stats['count']}
    for col, value_counts in categorical_stats.items():
        sorted_counts = sorted(value_counts.items(), key=lambda x: x[1], reverse=True)
        final_stats[col] = {'unique_values': len(value_counts),
            'top_5_values': sorted_counts[:5],
            'null_count': self.total_rows - sum(value_counts.values())}
  \<close>
  \<open>PdNumeric\<close> holds mean, min, max, count and null_count in this order;
  \<open>PdCategorical\<close> holds unique_values, top_5_values and null_count.
  \<open>self.total_rows\<close>, set by \<open>analyze_file_structure\<close>, is a parameter.
\<close>

datatype pd_final_stat =
    PdNumeric real xfloat xfloat int int
  | PdCategorical int "(string \<times> int) list" int

definition finalize_numeric ::
  "int \<Rightarrow> string \<times> numeric_acc \<Rightarrow> (string \<times> pd_final_stat) list \<Rightarrow>
   (string \<times> pd_final_stat) list" where
  "finalize_numeric self_total_rows cs final_stats =
     (case cs of (col, stats) \<Rightarrow>
        if count_acc stats > 0 then
          AList.update col
            (PdNumeric (sum_acc stats / real_of_int (count_acc stats)) (min_acc stats)
               (max_acc stats) (count_acc stats) (self_total_rows - count_acc stats))
            final_stats
        else final_stats)"

definition finalize_categorical ::
  "int \<Rightarrow> string \<times> (string \<times> int) list \<Rightarrow> (string \<times> pd_final_stat) list \<Rightarrow>
   (string \<times> pd_final_stat) list" where
  "finalize_categorical self_total_rows cv final_stats =
     (case cv of (col, counts) \<Rightarrow>
        AList.update col
          (PdCategorical (int (length counts))
             (take 5 (sort_key (\<lambda>item. - snd item) counts))
             (self_total_rows - sum_list (map snd counts)))
          final_stats)"

definition final_statistics :: "int \<Rightarrow> accumulators \<Rightarrow> (string \<times> pd_final_stat) list" where
  "final_statistics self_total_rows st =
     (case st of (numeric_stats, categorical_stats) \<Rightarrow>
        fold (finalize_categorical self_total_rows) categorical_stats
          (fold (finalize_numeric self_total_rows) numeric_stats []))"

definition calculate_descriptive_statistics ::
  "dataframe list \<Rightarrow> int \<Rightarrow> (string \<times> pd_final_stat) list" where
  "calculate_descriptive_statistics chunks self_total_rows =
     final_statistics self_total_rows (accumulate chunks)"

text \<open>
  The specification's words for the merge of two frequency maps: the key-wise sum of the
  counts over the union of the keys.
\<close>

definition keywise_sum :: "(string \<rightharpoonup> int) \<Rightarrow> (string \<rightharpoonup> int) \<Rightarrow> (string \<rightharpoonup> int)" where
  "keywise_sum f g k =
     (case f k of
        None \<Rightarrow> g k
      | Some x \<Rightarrow> (case g k of None \<Rightarrow> Some x | Some y \<Rightarrow> Some (x + y)))"

text \<open>The number of rows of a series.\<close>

definition series_len :: "series \<Rightarrow> nat" where
  "series_len s =
     (case s of NumSeries cells \<Rightarrow> length cells | ObjSeries cells \<Rightarrow> length cells
      | BoolSeries cells \<Rightarrow> length cells)"

text \<open>
  The one-column file with the lines \<open>c\<close>, \<open>1\<close>, \<open>1\<close>, \<open>abc\<close>, as \<open>read_csv\<close> yields
  it at \<open>chunksize=1\<close> (three frames; the dtype is inferred for each frame, \<open>int64\<close> for
  the first two and object for the third) and at \<open>chunksize=3\<close> (one frame of dtype object,
  its values the strings of the file).
\<close>

definition mixed_file_chunks_1 :: "dataframe list" where
  "mixed_file_chunks_1 =
     [[(''c'', NumSeries [Some 1])], [(''c'', NumSeries [Some 1])],
      [(''c'', ObjSeries [Some ''abc''])]]"

definition mixed_file_chunks_3 :: "dataframe list" where
  "mixed_file_chunks_3 = [[(''c'', ObjSeries [Some ''1'', Some ''1'', Some ''abc''])]]"

text \<open>
  A numeric column \<open>x\<close> of 20000 rows, one of the first 10000 missing (\<open>NA\<close>), as
  \<open>read_csv\<close> yields it at the default \<open>chunksize=10000\<close>.
\<close>

definition two_full_chunks :: "dataframe list" where
  "two_full_chunks =
     [[(''x'', NumSeries (replicate 9999 (Some 1) @ [None]))],
      [(''x'', NumSeries (replicate 10000 (Some 1)))]]"

text \<open>
  The bound that the sample lists of the numeric accumulators keep, for chunks of at most
  \<open>chunk_size\<close> rows.
\<close>

definition values_bounded :: "nat \<Rightarrow> (string \<times> numeric_acc) list \<Rightarrow> bool" where
  "values_bounded chunk_size ns =
     list_all (\<lambda>cs. length (values_acc (snd cs)) \<le> 9999 + chunk_size) ns"

text \<open>The entry that the final loop writes for a numeric accumulator, if any.\<close>

definition numeric_summary :: "int \<Rightarrow> numeric_acc \<Rightarrow> pd_final_stat option" where
  "numeric_summary T st =
     (if count_acc st > 0 then
        Some (PdNumeric (sum_acc st / real_of_int (count_acc st)) (min_acc st) (max_acc st)
                (count_acc st) (T - count_acc st))
      else None)"

text \<open>
  The scenario of the specification as one chunk, and the file with the lines \<open>a,c\<close>,
  \<open>1,\<close>, \<open>2,\<close> as one chunk: its column \<open>c\<close> is empty, of dtype \<open>float64\<close>.
\<close>

definition scenario_chunks :: "dataframe list" where
  "scenario_chunks =
     [[(''amount'', NumSeries [Some (21 / 2), None, Some 20]),
       (''category'', ObjSeries [Some ''X'', Some ''Y'', None])]]"

definition empty_column_chunks :: "dataframe list" where
  "empty_column_chunks =
     [[(''a'', NumSeries [Some 1, Some 2]), (''c'', NumSeries [None, None])]]"

section \<open>Properties of separator detection\<close>

lemma length_split_pos: "0 < length (split sep s)"
  by (induction s) (simp_all add: Let_def)

lemma length_split: "length (split sep s) = Suc (length (filter (\<lambda>c. c = sep) s))"
proof (induction s)
  case Nil
  show ?case by simp
next
  case (Cons c cs)
  have "split sep cs \<noteq> []" using length_split_pos [of sep cs] by auto
  then have "length (tl (split sep cs)) = length (filter (\<lambda>c. c = sep) cs)"
    using Cons.IH by simp
  then show ?case using Cons.IH by (simp add: Let_def)
qed

lemma length_split_absent: "sep \<notin> set s \<Longrightarrow> length (split sep s) = 1"
  by (auto simp: length_split filter_empty_conv)

lemma sep_step_pair:
  "sep_step line c (m, b) =
     (if m < length (split c line) then (length (split c line), c) else (m, b))"
  by (simp add: sep_step_def Let_def)

text \<open>
  The loop over any candidate list, from any state: the count never decreases, it bounds
  every candidate's field count, and either the state is unchanged or the separator kept is
  a candidate that beats the old count and every candidate before it.
\<close>

lemma fold_sep_step:
  "fold (sep_step line) cs (m, b) = (n, s) \<Longrightarrow>
     m \<le> n \<and> (\<forall>c \<in> set cs. length (split c line) \<le> n) \<and>
     ((n = m \<and> s = b) \<or>
      (\<exists>j < length cs. cs ! j = s \<and> n = length (split s line) \<and> m < n \<and>
          (\<forall>i < j. length (split (cs ! i) line) < n)))"
proof (induction cs arbitrary: m b)
  case Nil
  then show ?case by simp
next
  case (Cons c cs)
  show ?case
  proof (cases "m < length (split c line)")
    case True
    then have "fold (sep_step line) cs (length (split c line), c) = (n, s)"
      using Cons.prems by (simp add: sep_step_pair)
    from Cons.IH [OF this] show ?thesis using True
      apply (elim conjE disjE exE)
       apply (rule conjI, simp, rule conjI, simp)
       apply (rule disjI2, rule exI [of _ 0], simp)
      apply (rule conjI, simp, rule conjI, simp)
      subgoal for j
        apply (rule disjI2, rule exI [of _ "Suc j"])
        apply (simp add: nth_Cons less_Suc_eq_0_disj)
        apply auto
        done
      done
  next
    case False
    then have "fold (sep_step line) cs (m, b) = (n, s)"
      using Cons.prems by (simp add: sep_step_pair)
    from Cons.IH [OF this] show ?thesis using False
      apply (elim conjE disjE exE)
       apply (rule conjI, simp, rule conjI, simp)
       apply (rule disjI1, simp)
      apply (rule conjI, simp, rule conjI, simp)
      subgoal for j
        apply (rule disjI2, rule exI [of _ "Suc j"])
        apply (simp add: nth_Cons less_Suc_eq_0_disj)
        apply auto
        done
      done
  qed
qed

lemma distinct_separators: "distinct separators"
  by (simp add: separators_def)

lemma detect_separator_cases:
  assumes "detect_separator line = (n, s)"
  shows "\<exists>j < length separators. separators ! j = s \<and> n = length (split s line) \<and>
           (\<forall>i < j. length (split (separators ! i) line) < n)"
    and "\<forall>c \<in> set separators. length (split c line) \<le> n"
proof -
  have f: "fold (sep_step line) separators (0, CHR '','') = (n, s)"
    using assms by (simp add: detect_separator_def)
  note g = fold_sep_step [OF f]
  show "\<forall>c \<in> set separators. length (split c line) \<le> n" using g by blast
  then have "length (split CHR '','' line) \<le> n" by (simp add: separators_def)
  then have "0 < n" using length_split_pos [of "CHR '',''" line] by linarith
  then show "\<exists>j < length separators. separators ! j = s \<and> n = length (split s line) \<and>
           (\<forall>i < j. length (split (separators ! i) line) < n)"
    using g by auto
qed

lemma detect_separator_absent:
  assumes "\<forall>c \<in> set separators. c \<notin> set line"
  shows "detect_separator line = (1, CHR '','')"
proof -
  have "length (split c line) = 1" if "c \<in> set separators" for c
    using assms that by (simp add: length_split_absent)
  then show ?thesis
    by (simp add: detect_separator_def separators_def sep_step_pair)
qed

text \<open>
  C5 (as stated): on the first line \<open>a,b;c,d,e\<close> the comma yields 3 fields. The line has
  three commas, so \<open>split\<close> yields four fields.
\<close>

theorem comma_fields_counterexample:
  "length (split CHR '','' ''a,b;c,d,e'') \<noteq> 3"
  by simp

text \<open>
  C5 (amended): for every first line, the detector returns a candidate of the list
  \<open>[",", ";", tab, "|"]\<close> together with its field count; that count is the maximum over
  the four candidates, and every candidate listed before the returned one yields strictly
  fewer fields (ties go to the earlier candidate). On the first line \<open>a,b;c,d,e\<close> the
  comma yields 4 fields and the semicolon 2, and the detector selects the comma.
\<close>

theorem detect_separator_maximum_first:
  "(case detect_separator first_line of (n, s) \<Rightarrow>
      s \<in> set separators \<and> n = length (split s first_line) \<and>
      (\<forall>c \<in> set separators. length (split c first_line) \<le> n) \<and>
      (\<forall>j < length separators. separators ! j = s \<longrightarrow>
         (\<forall>i < j. length (split (separators ! i) first_line) < n))) \<and>
   length (split CHR '','' ''a,b;c,d,e'') = 4 \<and>
   length (split CHR '';'' ''a,b;c,d,e'') = 2 \<and>
   detect_separator ''a,b;c,d,e'' = (4, CHR '','')"
proof -
  obtain n s where ns: "detect_separator first_line = (n, s)"
    by (cases "detect_separator first_line")
  from detect_separator_cases(1) [OF ns] obtain j where
    j: "j < length separators" "separators ! j = s" "n = length (split s first_line)"
       "\<forall>i < j. length (split (separators ! i) first_line) < n"
    by blast
  have mem: "s \<in> set separators" using j(1,2) nth_mem by blast
  have first: "\<forall>i < k. length (split (separators ! i) first_line) < n"
    if "k < length separators" "separators ! k = s" for k
  proof -
    have "k = j"
      using that j(1,2) nth_eq_iff_index_eq [OF distinct_separators, of k j] by simp
    then show ?thesis using j(4) by simp
  qed
  have ex: "detect_separator ''a,b;c,d,e'' = (4, CHR '','')"
    by (simp add: detect_separator_def separators_def sep_step_pair)
  show ?thesis
    using ns mem j(3) detect_separator_cases(2) [OF ns] first ex by simp
qed

theorem detect_separator_maximum_first_witness:
  "detect_separator ''x;y|z;w'' = (3, CHR '';'') \<and> CHR '';'' \<in> set separators \<and>
   CHR ''|'' \<in> set separators \<and> length (split CHR ''|'' ''x;y|z;w'') \<le> 3 \<and>
   (1::nat) < length separators \<and> separators ! 1 = CHR '';'' \<and> (0::nat) < 1 \<and>
   length (split (separators ! 0) ''x;y|z;w'') < 3"
proof -
  have d: "detect_separator ''x;y|z;w'' = (3, CHR '';'')"
    by (simp add: detect_separator_def separators_def sep_step_pair)
  show ?thesis
    using detect_separator_maximum_first [of "''x;y|z;w''"] d
    by (simp add: separators_def)
qed

text \<open>
  C10: a first line that contains none of the candidate separators is detected as
  comma-separated with a column count of 1, by the loop itself and so by
  \<open>detect_file_properties\<close> and \<open>detect_encoding_and_separator\<close>; and whatever the first
  line is, the separator returned is a member of the candidate list.
\<close>

theorem detect_separator_single_column:
  "((\<forall>c \<in> set separators. c \<notin> set first_line) \<longrightarrow>
      detect_separator first_line = (1, CHR '','')) \<and>
   snd (detect_separator first_line) \<in> set separators \<and>
   (f enc = Some raw \<and> (\<forall>c \<in> set separators. c \<notin> set (strip raw)) \<longrightarrow>
      detect_file_properties (enc, conf) f =
        Inr \<lparr>pd_encoding = enc, pd_separator = CHR '','', pd_confidence = conf,
             pd_columns_count = 1\<rparr>) \<and>
   (g (Some (try_encodings g encodings_to_try ''utf-8'')) = Some raw \<and>
    (\<forall>c \<in> set separators. c \<notin> set (strip raw)) \<longrightarrow>
      detect_encoding_and_separator g =
        Inr \<lparr>encoding = try_encodings g encodings_to_try ''utf-8'', separator = CHR '','',
             columns_count = 1\<rparr>)"
proof -
  obtain n s where ns: "detect_separator first_line = (n, s)"
    by (cases "detect_separator first_line")
  from detect_separator_cases(1) [OF ns] have "s \<in> set separators"
    using nth_mem by blast
  then have mem: "snd (detect_separator first_line) \<in> set separators"
    using ns by simp
  show ?thesis
    using mem
    by (auto simp: detect_separator_absent detect_file_properties_def
        detect_encoding_and_separator_def Let_def)
qed

theorem detect_separator_single_column_witness:
  "CHR '','' \<notin> set ''customer_id'' \<and> CHR '';'' \<notin> set ''customer_id'' \<and>
   CHR 0x09 \<notin> set ''customer_id'' \<and> CHR ''|'' \<notin> set ''customer_id'' \<and>
   detect_separator ''customer_id'' = (1, CHR '','') \<and>
   header_only_file (Some ''utf-8'') = Some ''customer_id'' \<and>
   detect_file_properties (Some ''utf-8'', 1) header_only_file =
     Inr \<lparr>pd_encoding = Some ''utf-8'', pd_separator = CHR '','', pd_confidence = 1,
          pd_columns_count = 1\<rparr> \<and>
   detect_encoding_and_separator header_only_file =
     Inr \<lparr>encoding = ''utf-8'', separator = CHR '','', columns_count = 1\<rparr>"
proof -
  have a: "\<forall>c \<in> set separators. c \<notin> set ''customer_id''"
    by (simp add: separators_def)
  have s: "strip ''customer_id'' = ''customer_id''"
    by (simp add: strip_def py_isspace_def)
  have t: "try_encodings header_only_file encodings_to_try ''utf-8'' = ''utf-8''"
    by (simp add: encodings_to_try_def header_only_file_def s)
  have h: "header_only_file e = Some ''customer_id''" for e
    by (simp add: header_only_file_def)
  show ?thesis
    using a s t h
      detect_separator_single_column [of "''customer_id''" header_only_file
        "Some ''utf-8''" "''customer_id''" 1 header_only_file]
    by simp
qed

text \<open>
  C9 (as stated): for an empty file, format detection signals an error and produces no file
  profile. \<open>detect_encoding_and_separator\<close> returns a profile for the empty file.
\<close>

theorem empty_file_profile_counterexample:
  "detect_encoding_and_separator empty_file =
     Inr \<lparr>encoding = ''utf-8'', separator = CHR '','', columns_count = 1\<rparr>"
  by (simp add: detect_encoding_and_separator_def encodings_to_try_def empty_file_def
      strip_def detect_separator_def separators_def sep_step_pair)

text \<open>
  C9 (amended): if the input file is empty (its first line reads as the empty string),
  format detection raises no error and returns a profile: \<open>detect_encoding_and_separator\<close>
  keeps the default encoding \<open>utf-8\<close> and reports separator \<open>","\<close> with a column count of
  1; \<open>detect_file_properties\<close> reports the encoding and confidence that \<open>chardet\<close>
  answered, separator \<open>","\<close> and a column count of 1. If the first line does not decode
  under the encoding chosen, the \<open>UnicodeDecodeError\<close> of the second read propagates and
  no profile is returned, from \<open>detect_file_properties\<close> and from
  \<open>detect_encoding_and_separator\<close> alike.
\<close>

theorem empty_file_detection:
  "((\<forall>e \<in> set encodings_to_try. f (Some e) = Some []) \<longrightarrow>
      detect_encoding_and_separator f =
        Inr \<lparr>encoding = ''utf-8'', separator = CHR '','', columns_count = 1\<rparr>) \<and>
   (f enc = Some [] \<longrightarrow>
      detect_file_properties (enc, conf) f =
        Inr \<lparr>pd_encoding = enc, pd_separator = CHR '','', pd_confidence = conf,
             pd_columns_count = 1\<rparr>) \<and>
   (f enc = None \<longrightarrow> detect_file_properties (enc, conf) f = Inl UnicodeDecodeError) \<and>
   (f (Some (try_encodings f encodings_to_try ''utf-8'')) = None \<longrightarrow>
      detect_encoding_and_separator f = Inl UnicodeDecodeError)"
proof -
  have s: "strip [] = []" by (simp add: strip_def)
  have d: "detect_separator [] = (1, CHR '','')"
    by (simp add: detect_separator_absent)
  have e: "f (Some (try_encodings f encodings_to_try ''utf-8'')) = None \<longrightarrow>
      detect_encoding_and_separator f = Inl UnicodeDecodeError"
    by (simp add: detect_encoding_and_separator_def Let_def)
  have r: "((\<forall>e \<in> set encodings_to_try. f (Some e) = Some []) \<longrightarrow>
      detect_encoding_and_separator f =
        Inr \<lparr>encoding = ''utf-8'', separator = CHR '','', columns_count = 1\<rparr>) \<and>
   (f enc = Some [] \<longrightarrow>
      detect_file_properties (enc, conf) f =
        Inr \<lparr>pd_encoding = enc, pd_separator = CHR '','', pd_confidence = conf,
             pd_columns_count = 1\<rparr>) \<and>
   (f enc = None \<longrightarrow> detect_file_properties (enc, conf) f = Inl UnicodeDecodeError)"
    by (simp add: detect_encoding_and_separator_def detect_file_properties_def
        encodings_to_try_def s d)
  show ?thesis using r e by blast
qed

theorem empty_file_detection_witness:
  "empty_file (Some ''utf-8'') = Some [] \<and> empty_file (Some ''latin-1'') = Some [] \<and>
   empty_file (Some ''cp1252'') = Some [] \<and>
   detect_encoding_and_separator empty_file =
     Inr \<lparr>encoding = ''utf-8'', separator = CHR '','', columns_count = 1\<rparr> \<and>
   empty_file None = Some [] \<and>
   detect_file_properties (None, 0) empty_file =
     Inr \<lparr>pd_encoding = None, pd_separator = CHR '','', pd_confidence = 0,
          pd_columns_count = 1\<rparr> \<and>
   non_ascii_file (Some ''ascii'') = None \<and>
   detect_file_properties (Some ''ascii'', 1) non_ascii_file = Inl UnicodeDecodeError \<and>
   try_encodings blank_first_line_file encodings_to_try ''utf-8'' = ''utf-8'' \<and>
   blank_first_line_file (Some ''utf-8'') = None \<and>
   detect_encoding_and_separator blank_first_line_file = Inl UnicodeDecodeError"
proof -
  have t: "try_encodings blank_first_line_file encodings_to_try ''utf-8'' = ''utf-8''"
    by (simp add: encodings_to_try_def blank_first_line_file_def strip_def py_isspace_def)
  have u: "blank_first_line_file (Some ''utf-8'') = None"
    by (simp add: blank_first_line_file_def)
  have v: "detect_encoding_and_separator blank_first_line_file = Inl UnicodeDecodeError"
    using empty_file_detection [of blank_first_line_file None 0] t u by simp
  have a: "\<forall>e \<in> set encodings_to_try. empty_file (Some e) = Some []"
    by (simp add: empty_file_def)
  have b: "empty_file None = Some []" by (simp add: empty_file_def)
  have c: "non_ascii_file (Some ''ascii'') = None" by (simp add: non_ascii_file_def)
  have d: "empty_file (Some e) = Some []" for e by (simp add: empty_file_def)
  show ?thesis
    using a b c d t u v empty_file_detection [of empty_file None 0]
      empty_file_detection [of non_ascii_file "Some ''ascii''" 1]
    by simp
qed


section \<open>Properties of the csv analyzers\<close>


lemma get0_update: "get0 (AList.update k v d) c = (if c = k then v else get0 d c)"
  by (simp add: get0_def update_conv')

lemma get0_incr: "get0 (incr k d) c = get0 d c + (if c = k then 1 else 0)"
  by (simp add: incr_def get0_update)

lemma sum_update:
  "sum_list (map snd (AList.update k v d)) = sum_list (map snd d) - get0 d k + v"
  by (induction d) (auto simp: get0_def)

lemma sum_incr: "sum_list (map snd (incr k d)) = sum_list (map snd d) + 1"
  by (simp add: incr_def sum_update)

lemma row_cells_Nil: "row_cells columns c n [] = []"
  by (simp add: row_cells_def)

lemma row_cells_Cons:
  "row_cells columns c n (v # vs) =
     (if n < length columns \<and> columns ! n = c then [v] else []) @ row_cells columns c (Suc n) vs"
  by (simp add: row_cells_def)

lemma null_cell_pair:
  "null_cell columns (i, v) counts =
     (if i < length columns \<and> strip v = [] then incr (columns ! i) counts else counts)"
  by (simp add: null_cell_def)

lemma null_row_pair:
  "null_row columns row (counts, n) =
     (fold (null_cell columns) (enumerate 0 row) counts, n + 1)"
  by (simp add: null_row_def)

lemma stats_row_cell_pair:
  "stats_row_cell tf columns (i, v) stats =
     (if i < length columns then AList.map_entry (columns ! i) (stats_cell tf v) stats
      else stats)"
  by (simp add: stats_row_cell_def)

lemma stats_row_step:
  "fold (stats_row tf columns) (row # rows) stats =
     fold (stats_row tf columns) rows
       (fold (stats_row_cell tf columns) (enumerate 0 row) stats)"
  by (simp add: stats_row_def)

lemma null_cells_fold:
  "get0 (fold (null_cell columns) (enumerate n row) counts) c =
     get0 counts c + int (length (filter (\<lambda>v. strip v = []) (row_cells columns c n row)))"
proof (induction row arbitrary: n counts)
  case Nil
  show ?case by (simp add: row_cells_Nil)
next
  case (Cons v vs)
  show ?case
    by (simp add: Cons.IH row_cells_Cons null_cell_pair get0_incr)
qed

lemma null_rows_fold:
  "fold (null_row columns) rows (counts, m) = (counts', m') \<Longrightarrow>
     m' = m + int (length rows) \<and>
     get0 counts' c =
       get0 counts c + int (length (filter (\<lambda>v. strip v = []) (column_cells columns c rows)))"
proof (induction rows arbitrary: counts m)
  case Nil
  then show ?case by (simp add: column_cells_def)
next
  case (Cons row rows)
  have "fold (null_row columns) rows
          (fold (null_cell columns) (enumerate 0 row) counts, m + 1) = (counts', m')"
    using Cons.prems by (simp add: null_row_pair)
  from Cons.IH [OF this] show ?case
    by (simp add: null_cells_fold column_cells_def)
qed

lemma stats_cells_fold:
  "map_of (fold (stats_row_cell tf columns) (enumerate n row) stats) c =
     map_option (fold (stats_cell tf) (row_cells columns c n row)) (map_of stats c)"
proof (induction row arbitrary: n stats)
  case Nil
  show ?case by (simp add: row_cells_Nil option.map_ident)
next
  case (Cons v vs)
  show ?case
    by (auto simp: Cons.IH row_cells_Cons stats_row_cell_pair map_of_map_entry
        split: option.splits)
qed

lemma stats_rows_fold:
  "map_of (fold (stats_row tf columns) rows stats) c =
     map_option (fold (stats_cell tf) (column_cells columns c rows)) (map_of stats c)"
proof (induction rows arbitrary: stats)
  case Nil
  show ?case by (simp add: column_cells_def option.map_ident)
next
  case (Cons row rows)
  show ?case
    unfolding stats_row_step
    by (cases "map_of stats c")
      (simp_all add: Cons.IH stats_cells_fold column_cells_def)
qed

lemma map_of_init_stats_aux:
  "map_of (fold (\<lambda>col stats. AList.update col empty_col_stats stats) columns stats) c =
     (if c \<in> set columns then Some empty_col_stats else map_of stats c)"
  by (induction columns arbitrary: stats) (auto simp: update_conv')

lemma map_of_init_stats:
  "map_of (init_stats columns) c = (if c \<in> set columns then Some empty_col_stats else None)"
  by (simp add: init_stats_def map_of_init_stats_aux)

lemma map_of_column_stats:
  "map_of (column_stats tf columns rows) c =
     (if c \<in> set columns
      then Some (fold (stats_cell tf) (column_cells columns c rows) empty_col_stats)
      else None)"
  by (simp add: column_stats_def stats_rows_fold map_of_init_stats)

lemma stats_cell_fields:
  "total_count (stats_cell tf v st) = total_count st + 1"
  "numeric_values (stats_cell tf v st) =
     numeric_values st @ (case tf v of None \<Rightarrow> [] | Some x \<Rightarrow> [x])"
  "sum_list (map snd (string_values (stats_cell tf v st))) =
     sum_list (map snd (string_values st)) + (if tf v = None \<and> strip v \<noteq> [] then 1 else 0)"
  by (simp_all add: stats_cell_def Let_def sum_incr split: option.splits)

lemma stats_cell_fold_fields:
  "total_count (fold (stats_cell tf) cells st) = total_count st + int (length cells) \<and>
   numeric_values (fold (stats_cell tf) cells st) = numeric_values st @ List.map_filter tf cells \<and>
   sum_list (map snd (string_values (fold (stats_cell tf) cells st))) =
     sum_list (map snd (string_values st)) +
     int (length (filter (\<lambda>v. tf v = None \<and> strip v \<noteq> []) cells))"
proof (induction cells arbitrary: st)
  case Nil
  show ?case by simp
next
  case (Cons v vs)
  show ?case
    by (cases "tf v") (simp_all add: Cons.IH stats_cell_fields)
qed

lemma length_map_filter:
  "length (List.map_filter f xs) = length (filter (\<lambda>x. f x \<noteq> None) xs)"
  by (simp add: List.map_filter_def)

lemma three_way:
  assumes "\<forall>s. strip s = [] \<longrightarrow> tf s = None"
  shows "length (filter (\<lambda>v. strip v = []) cells) + length (filter (\<lambda>x. tf x \<noteq> None) cells)
      + length (filter (\<lambda>v. tf v = None \<and> strip v \<noteq> []) cells) = length cells"
  using assms by (induction cells) auto

lemma row_cells_distinct:
  assumes "distinct columns" "i < length columns"
  shows "row_cells columns (columns ! i) n row =
           (if n \<le> i \<and> i < n + length row then [row ! (i - n)] else [])"
proof (induction row arbitrary: n)
  case Nil
  show ?case by (simp add: row_cells_Nil)
next
  case (Cons v vs)
  have eq: "(n < length columns \<and> columns ! n = columns ! i) = (n = i)"
    using assms nth_eq_iff_index_eq [OF assms(1), of n i] by auto
  show ?case
    by (auto simp: row_cells_Cons Cons.IH eq nth_Cons')
qed

lemma column_cells_distinct:
  assumes "distinct columns" "i < length columns"
  shows "column_cells columns (columns ! i) rows =
           map (\<lambda>row. row ! i) (filter (\<lambda>row. i < length row) rows)"
  by (induction rows) (simp_all add: column_cells_def row_cells_distinct [OF assms])

lemma analyze_null_values_result:
  "\<exists>na. analyze_null_values (columns # rows) = Inr na \<and>
     total_rows na = int (length rows) \<and>
     (\<forall>c. get0 (null_counts na) c =
        int (length (filter (\<lambda>v. strip v = []) (column_cells columns c rows))))"
proof -
  obtain counts n where f: "fold (null_row columns) rows ([], 0) = (counts, n)"
    by (cases "fold (null_row columns) rows ([], 0)")
  have n: "n = int (length rows)"
    using null_rows_fold [OF f] by simp
  have c: "get0 counts c =
      int (length (filter (\<lambda>v. strip v = []) (column_cells columns c rows)))" for c
    using null_rows_fold [OF f, of c] by (simp add: get0_def)
  show ?thesis
    using n c by (simp add: analyze_null_values_def f)
qed

lemma length_filter_short:
  "int (length (filter (\<lambda>row. i < length row) rows)) =
     int (length rows) - int (length (filter (\<lambda>row. length row \<le> i) rows))"
  by (induction rows) auto

lemma filter_map_nth:
  "filter P (map (\<lambda>row. row ! i) (filter (\<lambda>row. i < length row) rows)) =
     map (\<lambda>row. row ! i) (filter (\<lambda>row. i < length row \<and> P (row ! i)) rows)"
  by (induction rows) auto

lemma example_float_blank: "\<forall>s. strip s = [] \<longrightarrow> example_float s = None"
  unfolding example_float_def
  by (auto simp: strip_def py_isspace_def split: if_splits)

lemmas eval_defs = analyze_null_values_def null_row_pair null_cell_pair strip_def py_isspace_def
  incr_def
  get0_def calculate_basic_statistics_def column_stats_def init_stats_def stats_row_def
  stats_row_cell_pair stats_cell_def example_float_def empty_col_stats_def final_of_def
  most_common_def Let_def

text \<open>
  C6 (as stated): a row whose field count differs from the header's is skipped from null
  counting and from the statistics. The two-field row \<open>,1\<close> under a three-column header has
  its blank cell counted as a null of the first column, and its numeric cell counted in the
  second column's statistics.
\<close>

theorem short_row_counterexample:
  "analyze_null_values [[''a'', ''b'', ''c''], ['''', ''1'']] =
     Inr \<lparr>null_counts = [(''a'', 1)], null_percentages = [(''a'', 100)], total_rows = 1\<rparr> \<and>
   calculate_basic_statistics example_float [[''a'', ''b'', ''c''], ['''', ''1'']] =
     Inr [(''a'', Categorical 0 [] 1), (''b'', Numeric 1 1 (Some 1) (Some 1) 0),
          (''c'', Categorical 0 [] 0)]"
  by (simp add: eval_defs)

text \<open>
  C6 (amended): every row contributes to \<open>total_rows\<close>, and no row is skipped or counted
  as malformed. Whatever the field count of a row, its cell at a position \<open>i\<close> below the
  header's column count is folded into the accumulators of column \<open>i\<close>: the null counter
  counts every row that has a blank cell at \<open>i\<close>, and the statistics of the column are the
  fold of the cell update over the cells at \<open>i\<close> of all the rows that have one. Cells at
  positions from the header's column count on are ignored. (Header names are unique.)
\<close>

theorem mismatched_rows_are_folded:
  assumes "distinct columns" and "i < length columns"
  shows "(\<exists>na. analyze_null_values (columns # rows) = Inr na \<and>
            total_rows na = int (length rows) \<and>
            get0 (null_counts na) (columns ! i) =
              int (length (filter (\<lambda>row. i < length row \<and> strip (row ! i) = []) rows))) \<and>
         map_of (column_stats to_float columns rows) (columns ! i) =
           Some (fold (stats_cell to_float)
                  (map (\<lambda>row. row ! i) (filter (\<lambda>row. i < length row) rows))
                  empty_col_stats)"
proof -
  note cc = column_cells_distinct [OF assms, of rows]
  obtain na where na: "analyze_null_values (columns # rows) = Inr na"
      "total_rows na = int (length rows)"
      "get0 (null_counts na) (columns ! i) =
        int (length (filter (\<lambda>v. strip v = []) (column_cells columns (columns ! i) rows)))"
    using analyze_null_values_result [of columns rows] by blast
  have "get0 (null_counts na) (columns ! i) =
      int (length (filter (\<lambda>row. i < length row \<and> strip (row ! i) = []) rows))"
    using na(3) by (simp add: cc filter_map_nth)
  moreover have "map_of (column_stats to_float columns rows) (columns ! i) =
      Some (fold (stats_cell to_float)
             (map (\<lambda>row. row ! i) (filter (\<lambda>row. i < length row) rows)) empty_col_stats)"
    using assms(2) by (simp add: map_of_column_stats cc)
  ultimately show ?thesis using na(1,2) by blast
qed

theorem mismatched_rows_are_folded_witness:
  "distinct [''a'', ''b'', ''c''] \<and> (0::nat) < length [''a'', ''b'', ''c''] \<and>
   (\<exists>na. analyze_null_values [[''a'', ''b'', ''c''], ['''', ''1'']] = Inr na \<and>
      total_rows na = 1 \<and> get0 (null_counts na) ''a'' = 1) \<and>
   map_of (column_stats example_float [''a'', ''b'', ''c''] [['''', ''1'']]) ''a'' =
     Some \<lparr>numeric_values = [], string_values = [], total_count = 1\<rparr>"
  using mismatched_rows_are_folded
    [of "[''a'', ''b'', ''c'']" 0 "[['''', ''1'']]" example_float]
  by (simp add: stats_cell_def strip_def example_float_def empty_col_stats_def)

lemma map_of_final:
  "map_of (map (\<lambda>(col, st). (col, final_of st)) al) c = map_option final_of (map_of al c)"
  by (induction al) auto

lemma final_of_numeric:
  "is_numeric (final_of st) = (numeric_values st \<noteq> [])"
  "numeric_values st \<noteq> [] \<Longrightarrow> numeric_count (final_of st) = int (length (numeric_values st))"
  by (simp_all add: final_of_def is_numeric_def numeric_count_def Let_def)

lemma calculate_basic_statistics_column:
  assumes "c \<in> set columns"
  shows "\<exists>fs f. calculate_basic_statistics to_float (columns # rows) = Inr fs \<and>
           map_of fs c = Some f \<and>
           (is_numeric f \<longleftrightarrow> (\<exists>v \<in> set (column_cells columns c rows). to_float v \<noteq> None)) \<and>
           (is_numeric f \<longrightarrow>
              numeric_count f =
                int (length (filter (\<lambda>v. to_float v \<noteq> None) (column_cells columns c rows))))"
proof -
  let ?cells = "column_cells columns c rows"
  let ?st = "fold (stats_cell to_float) ?cells empty_col_stats"
  have nv: "numeric_values ?st = List.map_filter to_float ?cells"
    using stats_cell_fold_fields [of to_float ?cells empty_col_stats]
    by (simp add: empty_col_stats_def)
  have ne: "(numeric_values ?st \<noteq> []) = (\<exists>v \<in> set ?cells. to_float v \<noteq> None)"
    unfolding nv by (simp add: List.map_filter_def filter_empty_conv)
  have f: "map_of (map (\<lambda>(col, st). (col, final_of st)) (column_stats to_float columns rows)) c =
      Some (final_of ?st)"
    using assms by (simp add: map_of_final map_of_column_stats)
  have cnt: "numeric_values ?st \<noteq> [] \<Longrightarrow> numeric_count (final_of ?st) =
      int (length (filter (\<lambda>v. to_float v \<noteq> None) ?cells))"
    using final_of_numeric(2) [of ?st] nv by (simp add: length_map_filter)
  show ?thesis
    using f ne cnt final_of_numeric(1) [of ?st]
    by (simp add: calculate_basic_statistics_def)
qed

text \<open>
  C3 (as stated): a column is numeric only if every non-empty value parses, and no value
  after the first unparseable one is counted into the numeric statistics. The column
  \<open>abc, 1\<close> is classified numeric, with the \<open>1\<close> that follows \<open>abc\<close> counted.
\<close>

theorem text_then_number_counterexample:
  "calculate_basic_statistics example_float [[''c''], [''abc''], [''1'']] =
     Inr [(''c'', Numeric 1 1 (Some 1) (Some 1) 1)]"
  by (simp add: eval_defs)

lemma string_values_stats_cell:
  "string_values (stats_cell tf v st) =
     (if tf v = None \<and> strip v \<noteq> [] then incr v (string_values st) else string_values st)"
  by (simp add: stats_cell_def Let_def split: option.splits)

lemma keys_incr: "fst ` set (incr k d) = insert k (fst ` set d)"
  by (simp add: incr_def dom_update)

lemma distinct_incr: "distinct (map fst d) \<Longrightarrow> distinct (map fst (incr k d))"
  by (simp add: incr_def distinct_update)

lemma string_counter_fold:
  "get0 (string_values (fold (stats_cell tf) cells st)) s =
     get0 (string_values st) s +
     int (length (filter (\<lambda>v. v = s \<and> tf v = None \<and> strip v \<noteq> []) cells))"
  by (induction cells arbitrary: st) (auto simp: string_values_stats_cell get0_incr)

lemma string_keys_fold:
  "fst ` set (string_values (fold (stats_cell tf) cells st)) =
     fst ` set (string_values st) \<union> {v \<in> set cells. tf v = None \<and> strip v \<noteq> []}"
  by (induction cells arbitrary: st) (auto simp: string_values_stats_cell keys_incr)

lemma string_distinct_fold:
  "distinct (map fst (string_values st)) \<Longrightarrow>
     distinct (map fst (string_values (fold (stats_cell tf) cells st)))"
  by (induction cells arbitrary: st) (simp_all add: string_values_stats_cell distinct_incr)

lemma final_null_count_final_of:
  "final_null_count (final_of st) =
     (if numeric_values st \<noteq> [] then total_count st - int (length (numeric_values st))
      else total_count st - sum_list (map snd (string_values st)))"
  by (simp add: final_of_def final_null_count_def Let_def)

lemma all_text_or_blank:
  assumes "\<forall>v \<in> set cells. tf v = None"
  shows "int (length cells) - int (length (filter (\<lambda>v. tf v = None \<and> strip v \<noteq> []) cells)) =
           int (length (filter (\<lambda>v. strip v = []) cells))"
  using assms by (induction cells) auto

text \<open>
  The state of a column after the loop and its final entry, in terms of the cells of the
  column: the numeric values are the cells that parse, in order; the string counter holds
  exactly the unparseable non-blank cells, each with its number of occurrences; and the
  final entry is numeric if and only if some cell parses.
\<close>

lemma column_routing:
  assumes "c \<in> set columns"
  shows "\<exists>fs f st. calculate_basic_statistics to_float (columns # rows) = Inr fs \<and>
           map_of fs c = Some f \<and>
           map_of (column_stats to_float columns rows) c = Some st \<and>
           f = final_of st \<and>
           total_count st = int (length (column_cells columns c rows)) \<and>
           numeric_values st = List.map_filter to_float (column_cells columns c rows) \<and>
           (\<forall>s. get0 (string_values st) s =
              int (length (filter (\<lambda>v. v = s \<and> to_float v = None \<and> strip v \<noteq> [])
                     (column_cells columns c rows)))) \<and>
           fst ` set (string_values st) =
             {v \<in> set (column_cells columns c rows). to_float v = None \<and> strip v \<noteq> []} \<and>
           distinct (map fst (string_values st)) \<and>
           sum_list (map snd (string_values st)) =
             int (length (filter (\<lambda>v. to_float v = None \<and> strip v \<noteq> [])
                    (column_cells columns c rows))) \<and>
           (is_numeric f \<longleftrightarrow> (\<exists>v \<in> set (column_cells columns c rows). to_float v \<noteq> None)) \<and>
           (is_numeric f \<longrightarrow>
              numeric_count f =
                int (length (filter (\<lambda>v. to_float v \<noteq> None) (column_cells columns c rows)))) \<and>
           (\<not> is_numeric f \<longrightarrow>
              f = Categorical
                    (int (card {v \<in> set (column_cells columns c rows).
                                 to_float v = None \<and> strip v \<noteq> []}))
                    (most_common 5 (string_values st))
                    (int (length (filter (\<lambda>v. strip v = []) (column_cells columns c rows)))))"
proof -
  let ?cells = "column_cells columns c rows"
  let ?st = "fold (stats_cell to_float) ?cells empty_col_stats"
  let ?text = "{v \<in> set ?cells. to_float v = None \<and> strip v \<noteq> []}"
  note f = stats_cell_fold_fields [of to_float ?cells empty_col_stats]
  have st: "map_of (column_stats to_float columns rows) c = Some ?st"
    using assms by (simp add: map_of_column_stats)
  have fs: "map_of (map (\<lambda>(col, st). (col, final_of st)) (column_stats to_float columns rows)) c =
      Some (final_of ?st)"
    using assms by (simp add: map_of_final map_of_column_stats)
  have tc: "total_count ?st = int (length ?cells)"
    using f by (simp add: empty_col_stats_def)
  have nv: "numeric_values ?st = List.map_filter to_float ?cells"
    using f by (simp add: empty_col_stats_def)
  have sv: "sum_list (map snd (string_values ?st)) =
      int (length (filter (\<lambda>v. to_float v = None \<and> strip v \<noteq> []) ?cells))"
    using f by (simp add: empty_col_stats_def)
  have cnt: "get0 (string_values ?st) s =
      int (length (filter (\<lambda>v. v = s \<and> to_float v = None \<and> strip v \<noteq> []) ?cells))" for s
    using string_counter_fold [of to_float ?cells empty_col_stats s]
    by (simp add: empty_col_stats_def get0_def)
  have keys: "fst ` set (string_values ?st) = ?text"
    using string_keys_fold [of to_float ?cells empty_col_stats]
    by (simp add: empty_col_stats_def)
  have dist: "distinct (map fst (string_values ?st))"
    by (rule string_distinct_fold) (simp add: empty_col_stats_def)
  have len: "int (length (string_values ?st)) = int (card ?text)"
  proof -
    have "length (string_values ?st) = card (set (map fst (string_values ?st)))"
      using distinct_card [OF dist] by simp
    then show ?thesis using keys by simp
  qed
  have ne: "(numeric_values ?st \<noteq> []) = (\<exists>v \<in> set ?cells. to_float v \<noteq> None)"
    unfolding nv by (simp add: List.map_filter_def filter_empty_conv)
  have isn: "is_numeric (final_of ?st) = (\<exists>v \<in> set ?cells. to_float v \<noteq> None)"
    using final_of_numeric(1) [of ?st] ne by simp
  have ncount: "is_numeric (final_of ?st) \<longrightarrow> numeric_count (final_of ?st) =
      int (length (filter (\<lambda>v. to_float v \<noteq> None) ?cells))"
    using final_of_numeric [of ?st] nv by (simp add: length_map_filter)
  have cat: "\<not> is_numeric (final_of ?st) \<longrightarrow>
      final_of ?st = Categorical (int (card ?text)) (most_common 5 (string_values ?st))
        (int (length (filter (\<lambda>v. strip v = []) ?cells)))"
  proof
    assume "\<not> is_numeric (final_of ?st)"
    then have none: "\<forall>v \<in> set ?cells. to_float v = None" and e: "numeric_values ?st = []"
      using isn final_of_numeric(1) [of ?st] by auto
    have "total_count ?st - sum_list (map snd (string_values ?st)) =
        int (length (filter (\<lambda>v. strip v = []) ?cells))"
      using all_text_or_blank [OF none] tc sv by simp
    then show "final_of ?st = Categorical (int (card ?text)) (most_common 5 (string_values ?st))
        (int (length (filter (\<lambda>v. strip v = []) ?cells)))"
      using e len by (simp add: final_of_def Let_def)
  qed
  have r: "calculate_basic_statistics to_float (columns # rows) =
      Inr (map (\<lambda>(col, st). (col, final_of st)) (column_stats to_float columns rows))"
    by (simp add: calculate_basic_statistics_def)
  show ?thesis
    apply (rule exI [of _ "map (\<lambda>(col, st). (col, final_of st)) (column_stats to_float columns rows)"])
    apply (rule exI [of _ "final_of ?st"])
    apply (rule exI [of _ ?st])
    apply (intro conjI)
                apply (rule r)
               apply (rule fs)
              apply (rule st)
             apply (rule refl)
            apply (rule tc)
           apply (rule nv)
          apply (intro allI, rule cnt)
         apply (rule keys)
        apply (rule dist)
       apply (rule sv)
      apply (rule isn)
     apply (rule ncount)
    apply (rule cat)
    done
qed

text \<open>
  C3 (amended): each cell is routed on its own, with no reclassification of the column
  during the pass. Whatever came before it, a cell that parses as a number is appended to
  the numeric values of its column, and an unparseable non-blank cell is counted in the
  string counter of its column (one key per distinct string, with its number of
  occurrences). At finalization the column is classified numeric if and only if at least
  one of its cells parses; its numeric count is then the number of all its cells that
  parse, and the string counter is left out of the entry. Otherwise the entry is
  categorical, with the number of distinct strings, the five most common and the number of
  blank cells. \<open>_calculate_stats\<close> of \<open>quick_demo.py\<close> is the same function over the
  first \<open>max_rows\<close> rows.
\<close>

theorem per_cell_routing:
  assumes "c \<in> set columns"
  shows "(\<exists>fs f st. calculate_basic_statistics to_float (columns # rows) = Inr fs \<and>
           map_of fs c = Some f \<and>
           map_of (column_stats to_float columns rows) c = Some st \<and>
           f = final_of st \<and>
           total_count st = int (length (column_cells columns c rows)) \<and>
           numeric_values st = List.map_filter to_float (column_cells columns c rows) \<and>
           (\<forall>s. get0 (string_values st) s =
              int (length (filter (\<lambda>v. v = s \<and> to_float v = None \<and> strip v \<noteq> [])
                     (column_cells columns c rows)))) \<and>
           fst ` set (string_values st) =
             {v \<in> set (column_cells columns c rows). to_float v = None \<and> strip v \<noteq> []} \<and>
           distinct (map fst (string_values st)) \<and>
           sum_list (map snd (string_values st)) =
             int (length (filter (\<lambda>v. to_float v = None \<and> strip v \<noteq> [])
                    (column_cells columns c rows))) \<and>
           (is_numeric f \<longleftrightarrow> (\<exists>v \<in> set (column_cells columns c rows). to_float v \<noteq> None)) \<and>
           (is_numeric f \<longrightarrow>
              numeric_count f =
                int (length (filter (\<lambda>v. to_float v \<noteq> None) (column_cells columns c rows)))) \<and>
           (\<not> is_numeric f \<longrightarrow>
              f = Categorical
                    (int (card {v \<in> set (column_cells columns c rows).
                                 to_float v = None \<and> strip v \<noteq> []}))
                    (most_common 5 (string_values st))
                    (int (length (filter (\<lambda>v. strip v = []) (column_cells columns c rows)))))) \<and>
         calculate_stats_quick to_float max_rows (columns # rows) =
           calculate_basic_statistics to_float (columns # take max_rows rows)"
proof -
  have q: "calculate_stats_quick to_float max_rows (columns # rows) =
      calculate_basic_statistics to_float (columns # take max_rows rows)"
    by (simp add: calculate_stats_quick_def)
  show ?thesis
    by (rule conjI [OF column_routing [OF assms] q])
qed

theorem per_cell_routing_witness:
  "''c'' \<in> set [''c''] \<and>
   (\<exists>fs f st. calculate_basic_statistics example_float [[''c''], [''abc''], [''1''], [''2'']] = Inr fs \<and>
      map_of fs ''c'' = Some f \<and>
      map_of (column_stats example_float [''c''] [[''abc''], [''1''], [''2'']]) ''c'' = Some st \<and>
      numeric_values st = [1, 2] \<and> get0 (string_values st) ''abc'' = 1 \<and>
      fst ` set (string_values st) = {''abc''} \<and>
      is_numeric f \<and> numeric_count f = 2) \<and>
   calculate_stats_quick example_float 1 [[''c''], [''abc''], [''1''], [''2'']] =
     Inr [(''c'', Categorical 1 [(''abc'', 1)] 0)]"
proof -
  have c: "''c'' \<in> set [''c'']" by simp
  have cells: "column_cells [''c''] ''c'' [[''abc''], [''1''], [''2'']] = [''abc'', ''1'', ''2'']"
    by (simp add: column_cells_def row_cells_def)
  have fl: "example_float ''abc'' = None" "example_float ''1'' = Some 1"
    "example_float ''2'' = Some 2"
    by (simp_all add: example_float_def)
  have s: "strip ''abc'' \<noteq> []" "strip ''1'' \<noteq> []" "strip ''2'' \<noteq> []"
    by (simp_all add: strip_def py_isspace_def)
  have q: "calculate_basic_statistics example_float [[''c''], [''abc'']] =
      Inr [(''c'', Categorical 1 [(''abc'', 1)] 0)]"
    by (simp add: eval_defs)
  note t = per_cell_routing [OF c, of example_float "[[''abc''], [''1''], [''2'']]" 1]
  have q': "calculate_stats_quick example_float 1 [[''c''], [''abc''], [''1''], [''2'']] =
      Inr [(''c'', Categorical 1 [(''abc'', 1)] 0)]"
    using t [THEN conjunct2] q by simp
  from t [THEN conjunct1] obtain fs f st where
    h1: "calculate_basic_statistics example_float [[''c''], [''abc''], [''1''], [''2'']] = Inr fs"
    and h2: "map_of fs ''c'' = Some f"
    and h3: "map_of (column_stats example_float [''c''] [[''abc''], [''1''], [''2'']]) ''c'' = Some st"
    and hn: "numeric_values st =
       List.map_filter example_float (column_cells [''c''] ''c'' [[''abc''], [''1''], [''2'']])"
    and hg: "\<forall>s. get0 (string_values st) s =
        int (length (filter (\<lambda>v. v = s \<and> example_float v = None \<and> strip v \<noteq> [])
               (column_cells [''c''] ''c'' [[''abc''], [''1''], [''2'']])))"
    and hk: "fst ` set (string_values st) =
       {v \<in> set (column_cells [''c''] ''c'' [[''abc''], [''1''], [''2'']]).
          example_float v = None \<and> strip v \<noteq> []}"
    and hi: "is_numeric f \<longleftrightarrow>
        (\<exists>v \<in> set (column_cells [''c''] ''c'' [[''abc''], [''1''], [''2'']]).
           example_float v \<noteq> None)"
    and hc: "is_numeric f \<longrightarrow>
        numeric_count f =
          int (length (filter (\<lambda>v. example_float v \<noteq> None)
                 (column_cells [''c''] ''c'' [[''abc''], [''1''], [''2'']])))"
    by (elim exE conjE) (rule that; assumption)
  have nv: "numeric_values st = [1, 2]"
    unfolding hn cells by (simp add: fl)
  have g: "get0 (string_values st) ''abc'' = 1"
    unfolding hg [rule_format] cells by (simp add: fl s)
  have k: "fst ` set (string_values st) = {''abc''}"
    unfolding hk cells by (auto simp: fl s)
  have n: "is_numeric f"
    unfolding hi cells by (simp add: fl)
  have nc: "numeric_count f = 2"
    using hc n unfolding cells by (simp add: fl)
  have m: "\<exists>fs f st. calculate_basic_statistics example_float [[''c''], [''abc''], [''1''], [''2'']] = Inr fs \<and>
      map_of fs ''c'' = Some f \<and>
      map_of (column_stats example_float [''c''] [[''abc''], [''1''], [''2'']]) ''c'' = Some st \<and>
      numeric_values st = [1, 2] \<and> get0 (string_values st) ''abc'' = 1 \<and>
      fst ` set (string_values st) = {''abc''} \<and>
      is_numeric f \<and> numeric_count f = 2"
    apply (rule exI [of _ fs])
    apply (rule exI [of _ f])
    apply (rule exI [of _ st])
    apply (intro conjI)
           apply (rule h1)
          apply (rule h2)
         apply (rule h3)
        apply (rule nv)
       apply (rule g)
      apply (rule k)
     apply (rule n)
    apply (rule nc)
    done
  show ?thesis
    by (rule conjI [OF c conjI [OF m q']])
qed

text \<open>
  C7 (as stated): a cell is counted as missing if and only if it is empty after trimming,
  and null count, numeric count and categorical total add up to the rows. In the column
  \<open>X, 1, 2\<close> no cell is blank and \<open>analyze_null_values\<close> counts no null, but the
  \<open>null_count\<close> that \<open>calculate_basic_statistics\<close> returns for the column is 1 (the
  cell \<open>X\<close>); with its numeric count 2 and the string counter's total 1 that makes 4 for
  3 rows.
\<close>

theorem returned_null_count_counterexample:
  "analyze_null_values [[''c''], [''X''], [''1''], [''2'']] =
     Inr \<lparr>null_counts = [], null_percentages = [], total_rows = 3\<rparr> \<and>
   column_stats example_float [''c''] [[''X''], [''1''], [''2'']] =
     [(''c'', \<lparr>numeric_values = [1, 2], string_values = [(''X'', 1)], total_count = 3\<rparr>)] \<and>
   calculate_basic_statistics example_float [[''c''], [''X''], [''1''], [''2'']] =
     Inr [(''c'', Numeric 2 (3 / 2) (Some 1) (Some 2) 1)]"
  by (simp add: eval_defs)

text \<open>
  C7 (amended): \<open>analyze_null_values\<close> counts a cell as missing exactly when it is empty
  after \<open>strip()\<close>. For every column, that null count, the number of numeric values and
  the total of the string counter accumulated by \<open>calculate_basic_statistics\<close> add up to
  the column's \<open>total_count\<close>, the number of cells read for the column; with unique header
  names that is \<open>total_rows\<close> less the rows too short to have a cell in the column. The
  \<open>null_count\<close> that \<open>calculate_basic_statistics\<close> returns is \<open>total_count\<close> less the
  count of the kind reported: for a column reported as categorical it is the number of blank
  cells, the same as the null count of \<open>analyze_null_values\<close>; for a column reported as
  numeric it is that null count plus the number of unparseable non-blank cells, which are
  counted as missing there. \<open>float\<close> rejects blank strings, which is the hypothesis on
  \<open>to_float\<close>.
\<close>

theorem null_accounting:
  assumes "\<forall>s. strip s = [] \<longrightarrow> to_float s = None" and "c \<in> set columns"
  shows "\<exists>na fs f st. analyze_null_values (columns # rows) = Inr na \<and>
           calculate_basic_statistics to_float (columns # rows) = Inr fs \<and>
           map_of fs c = Some f \<and>
           map_of (column_stats to_float columns rows) c = Some st \<and>
           f = final_of st \<and>
           get0 (null_counts na) c =
             int (length (filter (\<lambda>v. strip v = []) (column_cells columns c rows))) \<and>
           get0 (null_counts na) c + int (length (numeric_values st)) +
             sum_list (map snd (string_values st)) = total_count st \<and>
           total_count st = int (length (column_cells columns c rows)) \<and>
           (distinct columns \<longrightarrow>
              (\<forall>i < length columns. columns ! i = c \<longrightarrow>
                 total_count st =
                   total_rows na - int (length (filter (\<lambda>row. length row \<le> i) rows)))) \<and>
           (is_numeric f \<longrightarrow>
              final_null_count f =
                get0 (null_counts na) c +
                int (length (filter (\<lambda>v. to_float v = None \<and> strip v \<noteq> [])
                       (column_cells columns c rows))) \<and>
              final_null_count f + numeric_count f = total_count st) \<and>
           (\<not> is_numeric f \<longrightarrow>
              final_null_count f = get0 (null_counts na) c \<and>
              numeric_values st = [] \<and>
              final_null_count f + sum_list (map snd (string_values st)) = total_count st)"
proof -
  let ?cells = "column_cells columns c rows"
  let ?st = "fold (stats_cell to_float) ?cells empty_col_stats"
  let ?fs = "map (\<lambda>(col, st). (col, final_of st)) (column_stats to_float columns rows)"
  obtain na where na: "analyze_null_values (columns # rows) = Inr na"
      "total_rows na = int (length rows)"
      "get0 (null_counts na) c = int (length (filter (\<lambda>v. strip v = []) ?cells))"
    using analyze_null_values_result [of columns rows] by blast
  have r: "calculate_basic_statistics to_float (columns # rows) = Inr ?fs"
    by (simp add: calculate_basic_statistics_def)
  have fs: "map_of ?fs c = Some (final_of ?st)"
    using assms(2) by (simp add: map_of_final map_of_column_stats)
  have st: "map_of (column_stats to_float columns rows) c = Some ?st"
    using assms(2) by (simp add: map_of_column_stats)
  note f = stats_cell_fold_fields [of to_float ?cells empty_col_stats]
  have tc: "total_count ?st = int (length ?cells)"
    using f by (simp add: empty_col_stats_def)
  have nv: "int (length (numeric_values ?st)) =
      int (length (filter (\<lambda>v. to_float v \<noteq> None) ?cells))"
    using f by (simp add: empty_col_stats_def length_map_filter)
  have sv: "sum_list (map snd (string_values ?st)) =
      int (length (filter (\<lambda>v. to_float v = None \<and> strip v \<noteq> []) ?cells))"
    using f by (simp add: empty_col_stats_def)
  have ident: "get0 (null_counts na) c + int (length (numeric_values ?st)) +
      sum_list (map snd (string_values ?st)) = total_count ?st"
    using three_way [OF assms(1), of ?cells] na(3) nv sv tc by linarith
  have rows: "distinct columns \<longrightarrow>
      (\<forall>i < length columns. columns ! i = c \<longrightarrow>
         total_count ?st =
           total_rows na - int (length (filter (\<lambda>row. length row \<le> i) rows)))"
  proof (intro impI allI)
    fix i
    assume d: "distinct columns" and i: "i < length columns" and ci: "columns ! i = c"
    have "?cells = map (\<lambda>row. row ! i) (filter (\<lambda>row. i < length row) rows)"
      using column_cells_distinct [OF d i, of rows] ci by simp
    then show "total_count ?st =
        total_rows na - int (length (filter (\<lambda>row. length row \<le> i) rows))"
      using tc na(2) length_filter_short [of i rows] by simp
  qed
  have num: "is_numeric (final_of ?st) \<longrightarrow>
      final_null_count (final_of ?st) =
        get0 (null_counts na) c +
        int (length (filter (\<lambda>v. to_float v = None \<and> strip v \<noteq> []) ?cells)) \<and>
      final_null_count (final_of ?st) + numeric_count (final_of ?st) = total_count ?st"
  proof
    assume "is_numeric (final_of ?st)"
    then have ne: "numeric_values ?st \<noteq> []"
      using final_of_numeric(1) [of ?st] by simp
    have a: "final_null_count (final_of ?st) =
        total_count ?st - int (length (numeric_values ?st))"
      using ne by (simp add: final_null_count_final_of)
    have b: "numeric_count (final_of ?st) = int (length (numeric_values ?st))"
      using final_of_numeric(2) [OF ne] .
    show "final_null_count (final_of ?st) =
        get0 (null_counts na) c +
        int (length (filter (\<lambda>v. to_float v = None \<and> strip v \<noteq> []) ?cells)) \<and>
      final_null_count (final_of ?st) + numeric_count (final_of ?st) = total_count ?st"
      using a b ident sv by linarith
  qed
  have cat: "\<not> is_numeric (final_of ?st) \<longrightarrow>
      final_null_count (final_of ?st) = get0 (null_counts na) c \<and>
      numeric_values ?st = [] \<and>
      final_null_count (final_of ?st) + sum_list (map snd (string_values ?st)) =
        total_count ?st"
  proof
    assume "\<not> is_numeric (final_of ?st)"
    then have e: "numeric_values ?st = []"
      using final_of_numeric(1) [of ?st] by simp
    have a: "final_null_count (final_of ?st) =
        total_count ?st - sum_list (map snd (string_values ?st))"
      using e by (simp add: final_null_count_final_of)
    have "final_null_count (final_of ?st) = get0 (null_counts na) c"
      using a ident e by simp
    then show "final_null_count (final_of ?st) = get0 (null_counts na) c \<and>
      numeric_values ?st = [] \<and>
      final_null_count (final_of ?st) + sum_list (map snd (string_values ?st)) =
        total_count ?st"
      using a e by simp
  qed
  show ?thesis
    apply (rule exI [of _ na])
    apply (rule exI [of _ ?fs])
    apply (rule exI [of _ "final_of ?st"])
    apply (rule exI [of _ ?st])
    apply (intro conjI)
              apply (rule na(1))
             apply (rule r)
            apply (rule fs)
           apply (rule st)
          apply (rule refl)
         apply (rule na(3))
        apply (rule ident)
       apply (rule tc)
      apply (rule rows)
     apply (rule num)
    apply (rule cat)
    done
qed

theorem null_accounting_witness:
  "''c'' \<in> set [''c''] \<and>
   (\<exists>na fs f st. analyze_null_values [[''c''], [''X''], [''1''], [''2'']] = Inr na \<and>
      calculate_basic_statistics example_float [[''c''], [''X''], [''1''], [''2'']] = Inr fs \<and>
      map_of fs ''c'' = Some f \<and>
      map_of (column_stats example_float [''c''] [[''X''], [''1''], [''2'']]) ''c'' = Some st \<and>
      get0 (null_counts na) ''c'' = 0 \<and>
      get0 (null_counts na) ''c'' + int (length (numeric_values st)) +
        sum_list (map snd (string_values st)) = total_count st \<and>
      total_count st = 3 \<and> is_numeric f \<and> final_null_count f = 1)"
proof -
  have c: "''c'' \<in> set [''c'']" by simp
  have cells: "column_cells [''c''] ''c'' [[''X''], [''1''], [''2'']] = [''X'', ''1'', ''2'']"
    by (simp add: column_cells_def row_cells_def)
  have fl: "example_float ''X'' = None" "example_float ''1'' = Some 1"
    "example_float ''2'' = Some 2"
    by (simp_all add: example_float_def)
  have s: "strip ''X'' \<noteq> []" "strip ''1'' \<noteq> []" "strip ''2'' \<noteq> []"
    by (simp_all add: strip_def py_isspace_def)
  have e: "calculate_basic_statistics example_float [[''c''], [''X''], [''1''], [''2'']] =
      Inr [(''c'', Numeric 2 (3 / 2) (Some 1) (Some 2) 1)]"
    by (simp add: eval_defs)
  from null_accounting [OF example_float_blank c, of "[[''X''], [''1''], [''2'']]"]
  obtain na fs f st where
    h1: "analyze_null_values [[''c''], [''X''], [''1''], [''2'']] = Inr na"
    and h2: "calculate_basic_statistics example_float [[''c''], [''X''], [''1''], [''2'']] = Inr fs"
    and h3: "map_of fs ''c'' = Some f"
    and h4: "map_of (column_stats example_float [''c''] [[''X''], [''1''], [''2'']]) ''c'' = Some st"
    and hb: "get0 (null_counts na) ''c'' =
        int (length (filter (\<lambda>v. strip v = [])
               (column_cells [''c''] ''c'' [[''X''], [''1''], [''2'']])))"
    and hi: "get0 (null_counts na) ''c'' + int (length (numeric_values st)) +
        sum_list (map snd (string_values st)) = total_count st"
    and ht: "total_count st = int (length (column_cells [''c''] ''c'' [[''X''], [''1''], [''2'']]))"
    and hn: "is_numeric f \<longrightarrow>
        final_null_count f =
          get0 (null_counts na) ''c'' +
          int (length (filter (\<lambda>v. example_float v = None \<and> strip v \<noteq> [])
                 (column_cells [''c''] ''c'' [[''X''], [''1''], [''2'']]))) \<and>
        final_null_count f + numeric_count f = total_count st"
    by (elim exE conjE) (rule that; assumption)
  have b: "get0 (null_counts na) ''c'' = 0"
    unfolding hb cells by (simp add: s)
  have t: "total_count st = 3"
    unfolding ht cells by simp
  have f: "f = Numeric 2 (3 / 2) (Some 1) (Some 2) 1"
  proof -
    have "fs = [(''c'', Numeric 2 (3 / 2) (Some 1) (Some 2) 1)]"
      using h2 e by simp
    then show ?thesis using h3 by simp
  qed
  have n: "is_numeric f"
    by (simp add: f is_numeric_def)
  have fn: "final_null_count f = 1"
    using hn n b unfolding cells by (simp add: fl s)
  have m: "\<exists>na fs f st. analyze_null_values [[''c''], [''X''], [''1''], [''2'']] = Inr na \<and>
      calculate_basic_statistics example_float [[''c''], [''X''], [''1''], [''2'']] = Inr fs \<and>
      map_of fs ''c'' = Some f \<and>
      map_of (column_stats example_float [''c''] [[''X''], [''1''], [''2'']]) ''c'' = Some st \<and>
      get0 (null_counts na) ''c'' = 0 \<and>
      get0 (null_counts na) ''c'' + int (length (numeric_values st)) +
        sum_list (map snd (string_values st)) = total_count st \<and>
      total_count st = 3 \<and> is_numeric f \<and> final_null_count f = 1"
    apply (rule exI [of _ na])
    apply (rule exI [of _ fs])
    apply (rule exI [of _ f])
    apply (rule exI [of _ st])
    apply (intro conjI)
            apply (rule h1)
           apply (rule h2)
          apply (rule h3)
         apply (rule h4)
        apply (rule b)
       apply (rule hi)
      apply (rule t)
     apply (rule n)
    apply (rule fn)
    done
  show ?thesis
    by (rule conjI [OF c m])
qed

section \<open>Properties of the chunked pipeline\<close>

lemma merge_item_pair:
  "merge_item (k, n) d =
     AList.update k (case map_of d k of None \<Rightarrow> n | Some m \<Rightarrow> m + n) d"
  by (simp add: merge_item_def split: option.splits)

lemma map_of_merge_item:
  "map_of (merge_item (k, n) d) =
     (map_of d)(k \<mapsto> (case map_of d k of None \<Rightarrow> n | Some m \<Rightarrow> m + n))"
  by (simp add: merge_item_pair update_conv')

lemma distinct_merge_item:
  "distinct (map fst d) \<Longrightarrow> distinct (map fst (merge_item kn d))"
  by (cases kn) (simp add: merge_item_pair distinct_update)

lemma distinct_merge_counts:
  "distinct (map fst a) \<Longrightarrow> distinct (map fst (merge_counts a b))"
  unfolding merge_counts_def
  by (induction b arbitrary: a) (simp_all add: distinct_merge_item)

lemma map_of_merge_counts:
  "distinct (map fst b) \<Longrightarrow>
     map_of (merge_counts a b) = keywise_sum (map_of a) (map_of b)"
proof (induction b arbitrary: a)
  case Nil
  show ?case
    by (rule ext) (simp add: merge_counts_def keywise_sum_def split: option.splits)
next
  case (Cons kn b)
  obtain k n where kn: "kn = (k, n)" by (cases kn)
  have d: "distinct (map fst b)" and nk: "map_of b k = None"
    using Cons.prems kn by (auto simp: map_of_eq_None_iff)
  have step: "merge_counts a (kn # b) = merge_counts (merge_item (k, n) a) b"
    by (simp add: merge_counts_def kn)
  show ?case
    unfolding step Cons.IH [OF d]
    by (rule ext)
      (auto simp: keywise_sum_def map_of_merge_item kn nk split: option.splits)
qed

lemma keywise_sum_commute: "keywise_sum f g = keywise_sum g f"
  by (rule ext) (simp add: keywise_sum_def split: option.splits)

lemma keywise_sum_assoc:
  "keywise_sum (keywise_sum f g) h = keywise_sum f (keywise_sum g h)"
  by (rule ext) (simp add: keywise_sum_def split: option.splits)

lemma dom_keywise_sum: "dom (keywise_sum f g) = dom f \<union> dom g"
  by (auto simp: keywise_sum_def dom_def split: option.splits)

text \<open>
  C1: the merge of two frequency maps (the inner loop of the categorical part, between
  dictionaries, whose keys are distinct) is the key-wise sum of the counts over the union of
  the keys; as dictionaries (compared by \<open>==\<close>, that is by their keys and values, not by
  insertion order) the merge is associative and commutative; and merging \<open>{"X": 3}\<close>
  with \<open>{"X": 2, "Y": 1}\<close> gives \<open>{"X": 5, "Y": 1}\<close>.
\<close>

theorem merge_counts_abelian:
  assumes "distinct (map fst a)" and "distinct (map fst b)" and "distinct (map fst c)"
  shows "map_of (merge_counts a b) = keywise_sum (map_of a) (map_of b) \<and>
         fst ` set (merge_counts a b) = fst ` set a \<union> fst ` set b \<and>
         map_of (merge_counts (merge_counts a b) c) =
           map_of (merge_counts a (merge_counts b c)) \<and>
         map_of (merge_counts a b) = map_of (merge_counts b a) \<and>
         merge_counts [(''X'', 3)] [(''X'', 2), (''Y'', 1)] = [(''X'', 5), (''Y'', 1)]"
proof -
  note ab = map_of_merge_counts [OF assms(2), of a]
  have bc: "distinct (map fst (merge_counts b c))"
    using assms(2) by (rule distinct_merge_counts)
  have keys: "fst ` set (merge_counts a b) = fst ` set a \<union> fst ` set b"
    using arg_cong [OF ab, of dom] by (simp add: dom_keywise_sum dom_map_of_conv_image_fst)
  have assoc: "map_of (merge_counts (merge_counts a b) c) =
      map_of (merge_counts a (merge_counts b c))"
    by (simp add: map_of_merge_counts assms bc keywise_sum_assoc)
  have comm: "map_of (merge_counts a b) = map_of (merge_counts b a)"
    by (simp add: map_of_merge_counts assms keywise_sum_commute [of "map_of a"])
  have ex: "merge_counts [(''X'', 3)] [(''X'', 2), (''Y'', 1)] = [(''X'', 5), (''Y'', 1)]"
    by (simp add: merge_counts_def merge_item_pair)
  show ?thesis using ab keys assoc comm ex by simp
qed

theorem merge_counts_abelian_witness:
  "distinct (map fst [(''X'', 3::int)]) \<and> distinct (map fst [(''X'', 2::int), (''Y'', 1)]) \<and>
   distinct (map fst [(''Z'', 4::int), (''Y'', 2)]) \<and>
   map_of (merge_counts [(''X'', 3)] [(''X'', 2), (''Y'', 1)]) ''X'' = Some 5 \<and>
   map_of (merge_counts (merge_counts [(''X'', 3)] [(''X'', 2), (''Y'', 1)]) [(''Z'', 4), (''Y'', 2)]) =
     map_of (merge_counts [(''X'', 3)] (merge_counts [(''X'', 2), (''Y'', 1)] [(''Z'', 4), (''Y'', 2)])) \<and>
   map_of (merge_counts [(''X'', 3)] [(''X'', 2), (''Y'', 1)]) =
     map_of (merge_counts [(''X'', 2), (''Y'', 1)] [(''X'', 3)])"
proof -
  have d: "distinct (map fst [(''X'', 3::int)])" "distinct (map fst [(''X'', 2::int), (''Y'', 1)])"
    "distinct (map fst [(''Z'', 4::int), (''Y'', 2)])"
    by simp_all
  note t = merge_counts_abelian [OF d]
  have x: "map_of (merge_counts [(''X'', 3)] [(''X'', 2), (''Y'', 1)]) ''X'' = Some 5"
    using t by (simp add: keywise_sum_def)
  show ?thesis
    using t d x by blast
qed

lemma numeric_col_Num:
  "numeric_col (col, NumSeries cells) ns =
     AList.map_entry col (update_numeric cells)
       (if map_of ns col = None then AList.update col new_numeric_acc ns else ns)"
  by (simp add: numeric_col_def)

lemma set_map_entry:
  "(k, v) \<in> set (AList.map_entry k' f al) \<Longrightarrow>
     (k, v) \<in> set al \<or> (\<exists>v'. (k, v') \<in> set al \<and> v = f v')"
  by (induction al) (auto split: if_splits)

lemma set_update:
  "(k, v) \<in> set (AList.update k' v' al) \<Longrightarrow> (k, v) \<in> set al \<or> v = v'"
  by (induction al) (auto split: if_splits)

lemma length_dropna: "length (dropna cells) \<le> length cells"
  by (simp add: dropna_def List.map_filter_def)

lemma length_values_update:
  "length (values_acc (update_numeric cells st)) =
     (if length (values_acc st) < 10000
      then length (values_acc st) + length (dropna cells)
      else length (values_acc st))"
  by (simp add: update_numeric_def)

lemma values_bound_update:
  assumes "length cells \<le> chunk_size" and "length (values_acc st) \<le> 9999 + chunk_size"
  shows "length (values_acc (update_numeric cells st)) \<le> 9999 + chunk_size"
  using assms length_dropna [of cells] by (simp add: length_values_update)

lemma values_bounded_numeric_col:
  assumes "values_bounded chunk_size ns" and "series_len (snd cs) \<le> chunk_size"
  shows "values_bounded chunk_size (numeric_col cs ns)"
proof (cases cs)
  case (Pair col s)
  show ?thesis
  proof (cases s)
    case (NumSeries cells)
    have len: "length cells \<le> chunk_size"
      using assms(2) Pair NumSeries by (simp add: series_len_def)
    let ?ns = "if map_of ns col = None then AList.update col new_numeric_acc ns else ns"
    have all: "length (values_acc v) \<le> 9999 + chunk_size" if "(k, v) \<in> set ns" for k v
      using assms(1) that by (fastforce simp: values_bounded_def list_all_iff)
    have b: "length (values_acc v) \<le> 9999 + chunk_size" if "(k, v) \<in> set ?ns" for k v
    proof (cases "map_of ns col = None")
      case True
      then have "(k, v) \<in> set ns \<or> v = new_numeric_acc"
        using that set_update [of k v col new_numeric_acc ns] by simp
      then show ?thesis
        using all by (auto simp: new_numeric_acc_def)
    next
      case False
      then show ?thesis
        using that all by auto
    qed
    have "length (values_acc v) \<le> 9999 + chunk_size"
      if "(k, v) \<in> set (AList.map_entry col (update_numeric cells) ?ns)" for k v
      using set_map_entry [OF that] b values_bound_update [OF len] by blast
    then show ?thesis
      unfolding Pair NumSeries numeric_col_Num
      by (auto simp: values_bounded_def list_all_iff)
  next
    case (ObjSeries cells)
    then show ?thesis using assms(1) Pair by (simp add: numeric_col_def)
  next
    case (BoolSeries cells)
    then show ?thesis using assms(1) Pair by (simp add: numeric_col_def)
  qed
qed

lemma values_bounded_chunk:
  assumes "values_bounded chunk_size ns" and "\<forall>cs \<in> set chunk. series_len (snd cs) \<le> chunk_size"
  shows "values_bounded chunk_size (fold numeric_col chunk ns)"
  using assms
  by (induction chunk arbitrary: ns) (simp_all add: values_bounded_numeric_col)

lemma chunk_step_pair:
  "chunk_step chunk (ns, cats) = (fold numeric_col chunk ns, fold categorical_col chunk cats)"
  by (simp add: chunk_step_def)

lemma values_bounded_chunks:
  assumes "values_bounded chunk_size (fst st)"
    and "\<forall>chunk \<in> set chunks. \<forall>cs \<in> set chunk. series_len (snd cs) \<le> chunk_size"
  shows "values_bounded chunk_size (fst (fold chunk_step chunks st))"
  using assms
proof (induction chunks arbitrary: st)
  case Nil
  then show ?case by simp
next
  case (Cons chunk chunks)
  obtain ns cats where st: "st = (ns, cats)" by (cases st)
  have "values_bounded chunk_size (fst (chunk_step chunk st))"
    using Cons.prems values_bounded_chunk [of chunk_size ns chunk]
    by (simp add: st chunk_step_pair)
  then show ?case using Cons by simp
qed

text \<open>
  C4 (amended): the guard \<open>len(values) < 10000\<close> is tested once per chunk, before all the
  non-null values of the chunk are appended. So the values of a chunk are appended exactly
  when the list is shorter than 10000 before the chunk, and after every chunk the list of
  every numeric column holds at most \<open>9999 + chunk_size\<close> values, for chunks of at most
  \<open>chunk_size\<close> rows.
\<close>

theorem reservoir_soft_bound:
  assumes "\<forall>chunk \<in> set chunks. \<forall>cs \<in> set chunk. series_len (snd cs) \<le> chunk_size"
  shows "(\<forall>cs \<in> set (fst (accumulate chunks)).
            length (values_acc (snd cs)) \<le> 9999 + chunk_size) \<and>
         length (values_acc (update_numeric cells st)) =
           (if length (values_acc st) < 10000
            then length (values_acc st) + length (dropna cells)
            else length (values_acc st))"
proof -
  have "values_bounded chunk_size (fst (accumulate chunks))"
    unfolding accumulate_def
    using assms by (intro values_bounded_chunks) (simp_all add: values_bounded_def)
  then show ?thesis
    by (simp add: values_bounded_def list_all_iff length_values_update)
qed

lemma dropna_replicate: "dropna (replicate n (Some x)) = replicate n x"
  by (induction n) (simp_all add: dropna_def)

lemma dropna_append: "dropna (xs @ ys) = dropna xs @ dropna ys"
  by (simp add: dropna_def List.map_filter_def)

lemma dropna_simps: "dropna [] = []" "dropna (None # xs) = dropna xs"
  "dropna (Some x # xs) = x # dropna xs"
  by (simp_all add: dropna_def)

text \<open>
  C4 (as stated): the sample list never exceeds 10000 elements. At the default chunk size
  of 10000, a numeric column with one empty cell among its first 10000 rows has 9999 values
  after the first chunk, and 19999 after the second.
\<close>

theorem reservoir_exceeds_cap_counterexample:
  "map (\<lambda>cs. (fst cs, length (values_acc (snd cs)))) (fst (accumulate two_full_chunks)) =
     [(''x'', 19999)]"
  by (simp add: two_full_chunks_def accumulate_def chunk_step_pair numeric_col_Num
      length_values_update new_numeric_acc_def dropna_replicate dropna_append dropna_simps)

theorem reservoir_soft_bound_witness:
  "series_len (NumSeries (replicate 9999 (Some 1) @ [None])) \<le> 10000 \<and>
   series_len (NumSeries (replicate 10000 (Some 1))) \<le> 10000 \<and>
   map (\<lambda>cs. length (values_acc (snd cs)) \<le> 9999 + 10000) (fst (accumulate two_full_chunks)) =
     [True]"
proof -
  have a: "\<forall>chunk \<in> set two_full_chunks. \<forall>cs \<in> set chunk. series_len (snd cs) \<le> 10000"
    by (simp add: two_full_chunks_def series_len_def)
  have k: "map fst (fst (accumulate two_full_chunks)) = [''x'']"
    by (simp add: two_full_chunks_def accumulate_def chunk_step_pair numeric_col_Num)
  then obtain st where st: "fst (accumulate two_full_chunks) = [(''x'', st)]"
    by (cases "fst (accumulate two_full_chunks)") auto
  show ?thesis
    using reservoir_soft_bound [OF a] st by (simp add: series_len_def)
qed

lemma finalize_numeric_pair:
  "finalize_numeric T (col, st) fs =
     (if count_acc st > 0 then
        AList.update col
          (PdNumeric (sum_acc st / real_of_int (count_acc st)) (min_acc st) (max_acc st)
             (count_acc st) (T - count_acc st)) fs
      else fs)"
  by (simp add: finalize_numeric_def)

lemma finalize_categorical_pair:
  "finalize_categorical T (col, counts) fs =
     AList.update col
       (PdCategorical (int (length counts)) (take 5 (sort_key (\<lambda>item. - snd item) counts))
          (T - sum_list (map snd counts))) fs"
  by (simp add: finalize_categorical_def)

lemma fold_finalize_numeric:
  "distinct (map fst ns) \<Longrightarrow>
     map_of (fold (finalize_numeric T) ns fs) col =
       (case map_of ns col of
          None \<Rightarrow> map_of fs col
        | Some st \<Rightarrow> (case numeric_summary T st of None \<Rightarrow> map_of fs col | Some s \<Rightarrow> Some s))"
proof (induction ns arbitrary: fs)
  case Nil
  show ?case by simp
next
  case (Cons p ns)
  obtain k st where p: "p = (k, st)" by (cases p)
  have d: "distinct (map fst ns)" and nk: "map_of ns k = None"
    using Cons.prems p by (auto simp: map_of_eq_None_iff)
  show ?case
    using nk
    by (auto simp: p Cons.IH [OF d] finalize_numeric_pair numeric_summary_def update_conv'
        split: option.splits)
qed

lemma fold_finalize_categorical_absent:
  "map_of cats col = None \<Longrightarrow>
     map_of (fold (finalize_categorical T) cats fs) col = map_of fs col"
proof (induction cats arbitrary: fs)
  case Nil
  show ?case by simp
next
  case (Cons p cats)
  obtain k counts where p: "p = (k, counts)" by (cases p)
  have "k \<noteq> col" and "map_of cats col = None"
    using Cons.prems p by (auto split: if_splits)
  then show ?case
    by (simp add: p Cons.IH finalize_categorical_pair update_conv')
qed

lemma distinct_numeric_col:
  "distinct (map fst ns) \<Longrightarrow> distinct (map fst (numeric_col cs ns))"
  by (cases cs; cases "snd cs")
    (auto simp: numeric_col_def distinct_map_entry distinct_update)

lemma distinct_fold_numeric_col:
  "distinct (map fst ns) \<Longrightarrow> distinct (map fst (fold numeric_col chunk ns))"
  by (induction chunk arbitrary: ns) (simp_all add: distinct_numeric_col)

lemma distinct_accumulate_aux:
  "distinct (map fst (fst st)) \<Longrightarrow> distinct (map fst (fst (fold chunk_step chunks st)))"
proof (induction chunks arbitrary: st)
  case Nil
  then show ?case by simp
next
  case (Cons chunk chunks)
  obtain ns cats where st: "st = (ns, cats)" by (cases st)
  have "distinct (map fst (fst (chunk_step chunk st)))"
    using Cons.prems by (simp add: st chunk_step_pair distinct_fold_numeric_col)
  then show ?case using Cons.IH by simp
qed

lemma distinct_accumulate: "distinct (map fst (fst (accumulate chunks)))"
  unfolding accumulate_def by (rule distinct_accumulate_aux) simp

lemma py_min_list_Min: "xs \<noteq> [] \<Longrightarrow> py_min_list xs = Min (set xs)"
proof (cases xs)
  case Nil
  assume "xs \<noteq> []"
  then show ?thesis using Nil by simp
next
  case (Cons x ys)
  have "(\<lambda>y m. if y < m then y else m) = (min :: real \<Rightarrow> real \<Rightarrow> real)"
    by (intro ext) (simp add: min_def)
  then show ?thesis
    using Min.set_eq_fold [of x ys] by (simp add: Cons)
qed

lemma py_max_list_Max: "xs \<noteq> [] \<Longrightarrow> py_max_list xs = Max (set xs)"
proof (cases xs)
  case Nil
  assume "xs \<noteq> []"
  then show ?thesis using Nil by simp
next
  case (Cons x ys)
  have "(\<lambda>y m. if y > m then y else m) = (max :: real \<Rightarrow> real \<Rightarrow> real)"
    by (intro ext) (simp add: max_def)
  then show ?thesis
    using Max.set_eq_fold [of x ys] by (simp add: Cons)
qed

lemma numeric_col_other:
  "numeric_col (col, ObjSeries cells) ns = ns"
  "numeric_col (col, BoolSeries bs) ns = ns"
  by (simp_all add: numeric_col_def)

lemma categorical_col_simps:
  "categorical_col (col, ObjSeries cells) cats =
     AList.map_entry col (\<lambda>acc. merge_counts acc (value_counts cells))
       (if map_of cats col = None then AList.update col [] cats else cats)"
  "categorical_col (col, NumSeries xs) cats = cats"
  "categorical_col (col, BoolSeries bs) cats = cats"
  by (simp_all add: categorical_col_def)

lemmas pd_eval_defs = accumulate_def chunk_step_pair numeric_col_Num numeric_col_other
  categorical_col_simps
  update_numeric_def new_numeric_acc_def series_sum_def series_count_def series_min_def
  series_max_def dropna_simps py_min_def py_max_def value_counts_def incr_def get0_def
  merge_counts_def merge_item_pair calculate_descriptive_statistics_def final_statistics_def
  finalize_numeric_pair finalize_categorical_pair

text \<open>
  C8 (as stated): when the count is 0, the mean is surfaced as an explicit "undefined"
  marker. A column without a single value gets no entry in the result of
  \<open>calculate_descriptive_statistics\<close>, and is reported as categorical by
  \<open>calculate_basic_statistics\<close>.
\<close>

theorem zero_count_counterexample:
  "calculate_descriptive_statistics empty_column_chunks 2 =
     [(''a'', PdNumeric (3 / 2) (Fin 1) (Fin 2) 2 0)] \<and>
   calculate_basic_statistics example_float [[''a'', ''c''], [''1'', ''''], [''2'', '''']] =
     Inr [(''a'', Numeric 2 (3 / 2) (Some 1) (Some 2) 0), (''c'', Categorical 0 [] 2)]"
  by (simp add: empty_column_chunks_def pd_eval_defs eval_defs)

text \<open>
  C8 (amended): finalizing a numeric column whose count is positive yields
  \<open>mean = sum / count\<close>, min, max, count and a null count: in
  \<open>calculate_descriptive_statistics\<close> (for a column that no chunk held as object)
  \<open>null_count = total_rows - count\<close>; in \<open>calculate_basic_statistics\<close> the count is
  the number of cells that parse, min and max are their minimum and maximum, and
  \<open>null_count = total_count - count\<close>. When the count is 0 no mean is surfaced and no
  division takes place: \<open>calculate_descriptive_statistics\<close> leaves the column out of the
  result, and \<open>calculate_basic_statistics\<close> reports it as categorical.
\<close>

theorem numeric_finalization:
  assumes "map_of (fst (accumulate chunks)) col = Some st"
    and "map_of (snd (accumulate chunks)) col = None"
    and "c \<in> set columns"
  shows "(0 < count_acc st \<longrightarrow>
            map_of (calculate_descriptive_statistics chunks self_total_rows) col =
              Some (PdNumeric (sum_acc st / real_of_int (count_acc st)) (min_acc st)
                      (max_acc st) (count_acc st) (self_total_rows - count_acc st))) \<and>
         (count_acc st \<le> 0 \<longrightarrow>
            map_of (calculate_descriptive_statistics chunks self_total_rows) col = None) \<and>
         (\<exists>fs. calculate_basic_statistics to_float (columns # rows) = Inr fs \<and>
            (let cells = column_cells columns c rows; vals = List.map_filter to_float cells in
               (vals \<noteq> [] \<longrightarrow>
                  map_of fs c =
                    Some (Numeric (int (length vals)) (sum_list vals / real (length vals))
                            (Some (Min (set vals))) (Some (Max (set vals)))
                            (int (length cells) - int (length vals)))) \<and>
               (vals = [] \<longrightarrow> (\<exists>u t n. map_of fs c = Some (Categorical u t n)))))"
proof -
  obtain ns cats where acc: "accumulate chunks = (ns, cats)"
    by (cases "accumulate chunks")
  have d: "distinct (map fst ns)"
    using distinct_accumulate [of chunks] acc by simp
  have "map_of (calculate_descriptive_statistics chunks self_total_rows) col =
      numeric_summary self_total_rows st"
    using assms(1,2) acc
    by (simp add: calculate_descriptive_statistics_def final_statistics_def
        fold_finalize_categorical_absent fold_finalize_numeric [OF d] split: option.splits)
  then have pd: "(0 < count_acc st \<longrightarrow>
            map_of (calculate_descriptive_statistics chunks self_total_rows) col =
              Some (PdNumeric (sum_acc st / real_of_int (count_acc st)) (min_acc st)
                      (max_acc st) (count_acc st) (self_total_rows - count_acc st))) \<and>
         (count_acc st \<le> 0 \<longrightarrow>
            map_of (calculate_descriptive_statistics chunks self_total_rows) col = None)"
    by (simp add: numeric_summary_def)
  let ?cells = "column_cells columns c rows"
  let ?vals = "List.map_filter to_float ?cells"
  let ?st = "fold (stats_cell to_float) ?cells empty_col_stats"
  note f = stats_cell_fold_fields [of to_float ?cells empty_col_stats]
  have nv: "numeric_values ?st = ?vals" and tc: "total_count ?st = int (length ?cells)"
    using f by (simp_all add: empty_col_stats_def)
  have fs: "map_of (map (\<lambda>(col, st). (col, final_of st)) (column_stats to_float columns rows)) c =
      Some (final_of ?st)"
    using assms(3) by (simp add: map_of_final map_of_column_stats)
  have num: "final_of ?st =
      Numeric (int (length ?vals)) (sum_list ?vals / real (length ?vals))
        (Some (Min (set ?vals))) (Some (Max (set ?vals)))
        (int (length ?cells) - int (length ?vals))" if "?vals \<noteq> []"
    using that by (simp add: final_of_def nv tc py_min_list_Min py_max_list_Max Let_def)
  have cat: "\<exists>u t n. final_of ?st = Categorical u t n" if "?vals = []"
    using that by (simp add: final_of_def nv Let_def)
  have csv: "\<exists>fs. calculate_basic_statistics to_float (columns # rows) = Inr fs \<and>
            (let cells = column_cells columns c rows; vals = List.map_filter to_float cells in
               (vals \<noteq> [] \<longrightarrow>
                  map_of fs c =
                    Some (Numeric (int (length vals)) (sum_list vals / real (length vals))
                            (Some (Min (set vals))) (Some (Max (set vals)))
                            (int (length cells) - int (length vals)))) \<and>
               (vals = [] \<longrightarrow> (\<exists>u t n. map_of fs c = Some (Categorical u t n))))"
    using fs num cat by (simp add: calculate_basic_statistics_def Let_def)
  show ?thesis using pd csv by blast
qed

theorem numeric_finalization_witness:
  "map_of (fst (accumulate scenario_chunks)) ''amount'' =
     Some \<lparr>sum_acc = 61 / 2, count_acc = 2, min_acc = Fin (21 / 2), max_acc = Fin 20,
           values_acc = [21 / 2, 20]\<rparr> \<and>
   map_of (snd (accumulate scenario_chunks)) ''amount'' = None \<and>
   map_of (calculate_descriptive_statistics scenario_chunks 3) ''amount'' =
     Some (PdNumeric (61 / 4) (Fin (21 / 2)) (Fin 20) 2 1) \<and>
   map_of (fst (accumulate empty_column_chunks)) ''c'' =
     Some \<lparr>sum_acc = 0, count_acc = 0, min_acc = PosInf, max_acc = NegInf, values_acc = []\<rparr> \<and>
   map_of (snd (accumulate empty_column_chunks)) ''c'' = None \<and>
   map_of (calculate_descriptive_statistics empty_column_chunks 2) ''c'' = None \<and>
   ''amount'' \<in> set [''id'', ''amount'', ''category''] \<and>
   (\<exists>fs. calculate_basic_statistics example_float scenario_file = Inr fs \<and>
      map_of fs ''amount'' = Some (Numeric 2 (61 / 4) (Some (21 / 2)) (Some 20) 1))"
proof -
  have a: "map_of (fst (accumulate scenario_chunks)) ''amount'' =
     Some \<lparr>sum_acc = 61 / 2, count_acc = 2, min_acc = Fin (21 / 2), max_acc = Fin 20,
           values_acc = [21 / 2, 20]\<rparr>"
    "map_of (snd (accumulate scenario_chunks)) ''amount'' = None"
    by (simp_all add: scenario_chunks_def pd_eval_defs)
  have b: "map_of (fst (accumulate empty_column_chunks)) ''c'' =
     Some \<lparr>sum_acc = 0, count_acc = 0, min_acc = PosInf, max_acc = NegInf, values_acc = []\<rparr>"
    "map_of (snd (accumulate empty_column_chunks)) ''c'' = None"
    by (simp_all add: empty_column_chunks_def pd_eval_defs)
  have c: "''amount'' \<in> set [''id'', ''amount'', ''category'']" by simp
  have cells: "column_cells [''id'', ''amount'', ''category''] ''amount''
      [[''1'', ''10.5'', ''X''], [''2'', '''', ''Y''], [''3'', ''20.0'', '''']] =
      [''10.5'', [], ''20.0'']"
    by (simp add: column_cells_def row_cells_def)
  have vals: "List.map_filter example_float [''10.5'', [], ''20.0''] = [21 / 2, 20]"
    by (simp add: example_float_def)
  note t1 = numeric_finalization [OF a c, of 3 example_float
      "[[''1'', ''10.5'', ''X''], [''2'', '''', ''Y''], [''3'', ''20.0'', '''']]"]
  note t2 = numeric_finalization [OF b c, of 2 example_float "[]"]
  have p1: "map_of (calculate_descriptive_statistics scenario_chunks 3) ''amount'' =
     Some (PdNumeric (61 / 4) (Fin (21 / 2)) (Fin 20) 2 1)"
    using t1 by simp
  have p2: "map_of (calculate_descriptive_statistics empty_column_chunks 2) ''c'' = None"
    using t2 by simp
  have p3: "\<exists>fs. calculate_basic_statistics example_float scenario_file = Inr fs \<and>
      map_of fs ''amount'' = Some (Numeric 2 (61 / 4) (Some (21 / 2)) (Some 20) 1)"
    using t1 unfolding cells vals scenario_file_def Let_def by simp
  show ?thesis using a b c p1 p2 p3 by blast
qed

text \<open>
  C2 claims that the finalized result is the same for every chunk size; this theorem
  evaluates the code where it is not. On the file with the lines
  \<open>c\<close>, \<open>1\<close>, \<open>1\<close>, \<open>abc\<close> (so \<open>total_rows = 3\<close>) the result depends on the chunk
  size. At chunk size 1 the column is numeric in the first two chunks and object in the
  third: both accumulators get an entry, the categorical one overwrites the numeric one in
  the final loop, and the frequency map is \<open>{"abc": 1}\<close> with a null count of 2. At chunk
  size 3 (the whole file) the column is object: the frequency map is
  \<open>{"1": 2, "abc": 1}\<close> with a null count of 0.
\<close>

theorem chunk_size_changes_statistics:
  "accumulate mixed_file_chunks_1 =
     ([(''c'', \<lparr>sum_acc = 2, count_acc = 2, min_acc = Fin 1, max_acc = Fin 1,
               values_acc = [1, 1]\<rparr>)],
      [(''c'', [(''abc'', 1)])]) \<and>
   calculate_descriptive_statistics mixed_file_chunks_1 3 =
     [(''c'', PdCategorical 1 [(''abc'', 1)] 2)] \<and>
   accumulate mixed_file_chunks_3 = ([], [(''c'', [(''1'', 2), (''abc'', 1)])]) \<and>
   calculate_descriptive_statistics mixed_file_chunks_3 3 =
     [(''c'', PdCategorical 2 [(''1'', 2), (''abc'', 1)] 0)]"
  by (simp add: mixed_file_chunks_1_def mixed_file_chunks_3_def pd_eval_defs)

end
